theory Spec2Isabelle
  imports Main "HOL-Library.Word"
begin

unbundle bit_operations_syntax

section \<open>Time\<close>

text \<open>
  An instant (Go's \<^verbatim>\<open>time.Time\<close>) is a count of nanoseconds on one time line, counted from
  the Unix epoch; it is not bounded by 64 bits, as Go keeps seconds and nanoseconds apart.
  A \<^verbatim>\<open>time.Duration\<close> is an \<^verbatim>\<open>int64\<close> count of nanoseconds: it is modelled as an
  integer, and every operation of the source that can leave the 64-bit range has the
  wrap-around or the saturation of Go written out.
  Each \<^verbatim>\<open>time.Now()\<close> of the source is a parameter of the model.
\<close>

type_synonym time = int
type_synonym duration = int

definition minDuration :: duration where
  "minDuration = - (2 ^ 63)"

definition maxDuration :: duration where
  "maxDuration = 2 ^ 63 - 1"

definition Second :: duration where
  "Second = 1000000000"

definition Minute :: duration where
  "Minute = 60 * Second"

text \<open>Two's complement wrap-around of an \<^verbatim>\<open>int64\<close> result.\<close>

definition wrap64 :: "int \<Rightarrow> int" where
  "wrap64 x = (x + 2 ^ 63) mod 2 ^ 64 - 2 ^ 63"

text \<open>
  \<^verbatim>\<open>t.Sub(u)\<close>: the difference, or the largest (smallest) duration when the difference
  does not fit.
\<close>

definition time_Sub :: "time \<Rightarrow> time \<Rightarrow> duration" where
  "time_Sub t u =
     (let d = t - u in
      if minDuration \<le> d \<and> d \<le> maxDuration then d
      else if t < u then minDuration
      else maxDuration)"

definition time_Add :: "time \<Rightarrow> duration \<Rightarrow> time" where
  "time_Add t d = t + d"

definition time_Before :: "time \<Rightarrow> time \<Rightarrow> bool" where
  "time_Before t u = (t < u)"

definition time_After :: "time \<Rightarrow> time \<Rightarrow> bool" where
  "time_After t u = (u < t)"

section \<open>FixedWindowLimiter (internal/security/ratelimit.go)\<close>

record fixedWindowRecord =
  WindowStart :: time
  Count :: int

type_synonym FixedWindowLimiter = "string \<rightharpoonup> fixedWindowRecord"

definition NewFixedWindowLimiter :: FixedWindowLimiter where
  "NewFixedWindowLimiter = Map.empty"

text \<open>
  \<^verbatim>\<open>cleanupExpired\<close> reads the clock itself (\<open>now\<close> here is that reading) and deletes every
  key whose window started at least \<^verbatim>\<open>window*2\<close> ago; the product is an \<^verbatim>\<open>int64\<close>.
\<close>

definition cleanupExpired :: "time \<Rightarrow> duration \<Rightarrow> FixedWindowLimiter \<Rightarrow> FixedWindowLimiter" where
  "cleanupExpired now window l =
     (\<lambda>key. case l key of
        None \<Rightarrow> None
      | Some rec \<Rightarrow>
          if time_Sub now (WindowStart rec) \<ge> wrap64 (window * 2) then None else Some rec)"

text \<open>
  \<^verbatim>\<open>Allow\<close>: \<open>now\<close> is the clock reading of \<^verbatim>\<open>Allow\<close>, \<open>now2\<close> the later one of
  \<^verbatim>\<open>cleanupExpired\<close>. The result is the returned boolean and the limiter's map afterwards.
\<close>

definition Allow ::
  "time \<Rightarrow> time \<Rightarrow> FixedWindowLimiter \<Rightarrow> string \<Rightarrow> int \<Rightarrow> duration \<Rightarrow> bool \<times> FixedWindowLimiter" where
  "Allow now now2 l key limit window =
     (if limit \<le> 0 then (False, l)
      else case l key of
        None \<Rightarrow>
          (True, cleanupExpired now2 window (l(key \<mapsto> \<lparr>WindowStart = now, Count = 1\<rparr>)))
      | Some rec \<Rightarrow>
          if time_Sub now (WindowStart rec) \<ge> window then
            (True, cleanupExpired now2 window (l(key \<mapsto> \<lparr>WindowStart = now, Count = 1\<rparr>)))
          else if Count rec \<ge> limit then (False, l)
          else (True, l(key \<mapsto> rec\<lparr>Count := Count rec + 1\<rparr>)))"

section \<open>DuplicateDetector (internal/security/ratelimit.go)\<close>

type_synonym DuplicateDetector = "string \<rightharpoonup> time"

definition NewDuplicateDetector :: DuplicateDetector where
  "NewDuplicateDetector = Map.empty"

definition SeenRecently ::
  "time \<Rightarrow> DuplicateDetector \<Rightarrow> string \<Rightarrow> duration \<Rightarrow> bool \<times> DuplicateDetector" where
  "SeenRecently now d key window =
     (if (case d key of None \<Rightarrow> False | Some expireAt \<Rightarrow> time_Before now expireAt)
      then (True, d)
      else
        (False,
         (\<lambda>recordKey. case (d(key \<mapsto> time_Add now window)) recordKey of
            None \<Rightarrow> None
          | Some expireAt \<Rightarrow> if time_After now expireAt then None else Some expireAt)))"

section \<open>Remote-backed variants (internal/security/redis_limiter.go, redis_dedupe.go)\<close>

text \<open>
  The Redis server is outside the program. A client is modelled by what one call on it
  returns: an error of the transport (time-out included) or the reply. A \<^verbatim>\<open>nil\<close>
  client and a \<^verbatim>\<open>nil\<close> receiver are \<open>None\<close>.
\<close>

datatype redis_error = RedisTimeout | RedisUnavailable | RedisBadReply

text \<open>\<^verbatim>\<open>window.Milliseconds()\<close>: integer division truncating towards zero.\<close>

definition Milliseconds :: "duration \<Rightarrow> int" where
  "Milliseconds d = (if 0 \<le> d then d div 1000000 else - ((- d) div 1000000))"

record RedisFixedWindowLimiter =
  rl_client :: "(string \<Rightarrow> int \<Rightarrow> int \<Rightarrow> redis_error + int) option"
  rl_keyPrefix :: string
  rl_fallback :: FixedWindowLimiter
  rl_timeout :: duration

definition NewRedisFixedWindowLimiter ::
  "(string \<Rightarrow> int \<Rightarrow> int \<Rightarrow> redis_error + int) option \<Rightarrow> string \<Rightarrow> RedisFixedWindowLimiter" where
  "NewRedisFixedWindowLimiter client keyPrefix =
     \<lparr>rl_client = client, rl_keyPrefix = keyPrefix,
      rl_fallback = NewFixedWindowLimiter, rl_timeout = 800 * 1000000\<rparr>"

text \<open>The fallback call on the embedded limiter, with the limiter written back.\<close>

definition rl_fallback_Allow ::
  "time \<Rightarrow> time \<Rightarrow> RedisFixedWindowLimiter \<Rightarrow> string \<Rightarrow> int \<Rightarrow> duration
     \<Rightarrow> bool \<times> RedisFixedWindowLimiter option" where
  "rl_fallback_Allow now now2 l key limit window =
     (case Allow now now2 (rl_fallback l) key limit window of
        (ok, fb) \<Rightarrow> (ok, Some (l\<lparr>rl_fallback := fb\<rparr>)))"

definition Redis_Allow ::
  "time \<Rightarrow> time \<Rightarrow> RedisFixedWindowLimiter option \<Rightarrow> string \<Rightarrow> int \<Rightarrow> duration
     \<Rightarrow> bool \<times> RedisFixedWindowLimiter option" where
  "Redis_Allow now now2 lim key limit window =
     (if limit \<le> 0 then (False, lim)
      else case lim of
        None \<Rightarrow> (False, lim)
      | Some l \<Rightarrow>
          (case rl_client l of
             None \<Rightarrow> rl_fallback_Allow now now2 l key limit window
           | Some run \<Rightarrow>
               (let fullKey = rl_keyPrefix l @ '':rate:'' @ key;
                    windowMillis = Milliseconds window;
                    windowMillis = (if windowMillis \<le> 0 then 1 else windowMillis)
                in case run fullKey limit windowMillis of
                     Inl err \<Rightarrow> rl_fallback_Allow now now2 l key limit window
                   | Inr result \<Rightarrow> (result = 1, lim))))"

record RedisDuplicateDetector =
  rd_client :: "(string \<Rightarrow> string \<Rightarrow> duration \<Rightarrow> redis_error + bool) option"
  rd_keyPrefix :: string
  rd_fallback :: DuplicateDetector
  rd_timeout :: duration

definition NewRedisDuplicateDetector ::
  "(string \<Rightarrow> string \<Rightarrow> duration \<Rightarrow> redis_error + bool) option \<Rightarrow> string \<Rightarrow> RedisDuplicateDetector" where
  "NewRedisDuplicateDetector client keyPrefix =
     \<lparr>rd_client = client, rd_keyPrefix = keyPrefix,
      rd_fallback = NewDuplicateDetector, rd_timeout = 800 * 1000000\<rparr>"

definition rd_fallback_SeenRecently ::
  "time \<Rightarrow> RedisDuplicateDetector \<Rightarrow> string \<Rightarrow> duration \<Rightarrow> bool \<times> RedisDuplicateDetector option" where
  "rd_fallback_SeenRecently now d key window =
     (case SeenRecently now (rd_fallback d) key window of
        (seen, fb) \<Rightarrow> (seen, Some (d\<lparr>rd_fallback := fb\<rparr>)))"

definition Redis_SeenRecently ::
  "time \<Rightarrow> RedisDuplicateDetector option \<Rightarrow> string \<Rightarrow> duration
     \<Rightarrow> bool \<times> RedisDuplicateDetector option" where
  "Redis_SeenRecently now det key window =
     (case det of
        None \<Rightarrow> (False, det)
      | Some d \<Rightarrow>
          (case rd_client d of
             None \<Rightarrow> rd_fallback_SeenRecently now d key window
           | Some setnx \<Rightarrow>
               (let fullKey = rd_keyPrefix d @ '':dedupe:'' @ key
                in case setnx fullKey ''1'' window of
                     Inl err \<Rightarrow> rd_fallback_SeenRecently now d key window
                   | Inr ok \<Rightarrow> (\<not> ok, det))))"

section \<open>ChallengeManager (internal/security/challenge.go, the version with proof of work)\<close>

subsection \<open>Library functions\<close>

type_synonym byte = "8 word"
type_synonym bytes = "char list"
type_synonym address = string
type_synonym hex_string = string

text \<open>
  A Go string and a byte slice are both byte sequences (a \<open>char\<close> is a byte): the
  first is a \<open>string\<close> here and the second is \<open>bytes\<close>, the same type; a digest is
  a list of 8-bit words, as its bits are inspected. A client address and a hexadecimal
  text are strings as well.
  SHA-256, HMAC-SHA256 and the Unicode-aware functions of package \<^verbatim>\<open>strings\<close> are not
  code of this repository: they are parameters of the model, collected in one record.
\<close>

record stdlib =
  sha256_Sum256 :: "bytes \<Rightarrow> byte list"
  hmac_sha256 :: "bytes \<Rightarrow> bytes \<Rightarrow> byte list"
  strings_ToUpper :: "string \<Rightarrow> string"
  strings_ToLower :: "string \<Rightarrow> string"
  strings_TrimSpace :: "string \<Rightarrow> string"

text \<open>\<^verbatim>\<open>hex.EncodeToString\<close>: two lower-case digits for each byte.\<close>

definition hex_digit :: "nat \<Rightarrow> char" where
  "hex_digit n = ''0123456789abcdef'' ! (n mod 16)"

definition hex_EncodeToString :: "byte list \<Rightarrow> hex_string" where
  "hex_EncodeToString bs =
     concat (map (\<lambda>b. [hex_digit (unat b div 16), hex_digit (unat b mod 16)]) bs)"

text \<open>
  \<^verbatim>\<open>strconv.ParseInt(s, 10, 64)\<close>: an optional sign, then at least one decimal digit and
  nothing else; a value outside the \<^verbatim>\<open>int64\<close> range is an error as well.
\<close>

definition is_digit :: "char \<Rightarrow> bool" where
  "is_digit c = (48 \<le> (of_char c :: nat) \<and> (of_char c :: nat) \<le> 57)"

definition digit_value :: "char \<Rightarrow> int" where
  "digit_value c = int (of_char c) - 48"

definition parse_digits :: "string \<Rightarrow> int option" where
  "parse_digits s =
     (if s = [] \<or> \<not> list_all is_digit s then None
      else Some (foldl (\<lambda>n c. n * 10 + digit_value c) 0 s))"

definition ParseInt :: "string \<Rightarrow> int option" where
  "ParseInt s =
     (case s of
        [] \<Rightarrow> None
      | c # rest \<Rightarrow>
          (let neg = (c = CHR ''-'');
               digits = (if c = CHR ''+'' \<or> c = CHR ''-'' then rest else s)
           in case parse_digits digits of
                None \<Rightarrow> None
              | Some un \<Rightarrow>
                  (let v = (if neg then - un else un)
                   in if v < - (2 ^ 63) \<or> 2 ^ 63 - 1 < v then None else Some v)))"

text \<open>
  \<^verbatim>\<open>time.Unix(sec, 0)\<close> stores \<^verbatim>\<open>sec + unixToInternal\<close> in an \<^verbatim>\<open>int64\<close>; the instant
  it denotes is that wrapped sum.
\<close>

definition unixToInternal :: int where
  "unixToInternal = 62135596800"

definition time_Unix :: "int \<Rightarrow> time" where
  "time_Unix sec = (wrap64 (sec + unixToInternal) - unixToInternal) * 1000000000"

text \<open>Negation of an \<^verbatim>\<open>int64\<close> duration (\<^verbatim>\<open>delta = -delta\<close>).\<close>

definition duration_neg :: "duration \<Rightarrow> duration" where
  "duration_neg d = wrap64 (- d)"

subsection \<open>Data\<close>

datatype verify_error =
    ErrChallengeMissing
  | ErrChallengeExpired
  | ErrChallengeUsed
  | ErrSignatureInvalid
  | ErrTimestampInvalid
  | ErrPoWMissing
  | ErrPoWInvalid
  | ErrClientBlocked
  | ErrChallengeIPMismatch

record ChallengeBundle =
  ChallengeID :: string
  ClientSecret :: string
  Nonce :: string
  PoWBits :: int
  PoWSalt :: string
  ExpiresAt :: time

record challengeRecord =
  Bundle :: ChallengeBundle
  IssuedIP :: address
  Used :: bool
  FailCount :: int

text \<open>
  The map \<open>records\<close> holds pointers in the source; each pointer is stored under one
  identifier only, so that a write through the pointer is a write to the map's entry.
\<close>

record ChallengeManager =
  ttl :: duration
  timestampSkew :: duration
  failThreshold :: int
  blockDuration :: duration
  records :: "string \<rightharpoonup> challengeRecord"
  blockedClientIP :: "address \<rightharpoonup> time"

definition NewChallengeManager :: "duration \<Rightarrow> duration \<Rightarrow> int \<Rightarrow> duration \<Rightarrow> ChallengeManager" where
  "NewChallengeManager ttl0 skew threshold block =
     \<lparr>ttl = ttl0, timestampSkew = skew, failThreshold = threshold, blockDuration = block,
      records = Map.empty, blockedClientIP = Map.empty\<rparr>"

subsection \<open>Operations\<close>

definition cleanup :: "time \<Rightarrow> ChallengeManager \<Rightarrow> ChallengeManager" where
  "cleanup now m =
     m\<lparr>records :=
         (\<lambda>id. case records m id of
            None \<Rightarrow> None
          | Some r \<Rightarrow> if time_Before (ExpiresAt (Bundle r)) now then None else Some r),
       blockedClientIP :=
         (\<lambda>ip. case blockedClientIP m ip of
            None \<Rightarrow> None
          | Some blockedUntil \<Rightarrow> if time_After now blockedUntil then None else Some blockedUntil)\<rparr>"

text \<open>
  \<^verbatim>\<open>Issue\<close>: the four results of \<^verbatim>\<open>randomHex\<close> are parameters (identifier, secret, nonce,
  salt).
\<close>

definition Issue ::
  "time \<Rightarrow> string \<Rightarrow> string \<Rightarrow> string \<Rightarrow> string \<Rightarrow> ChallengeManager \<Rightarrow> address \<Rightarrow> int
     \<Rightarrow> ChallengeBundle \<times> ChallengeManager" where
  "Issue now rndID rndSecret rndNonce rndSalt m0 clientIP powBits =
     (let m = cleanup now m0;
          bundle = \<lparr>ChallengeID = rndID, ClientSecret = rndSecret, Nonce = rndNonce,
                    PoWBits = powBits, PoWSalt = rndSalt, ExpiresAt = time_Add now (ttl m)\<rparr>
      in (bundle,
          m\<lparr>records := (records m)(ChallengeID bundle \<mapsto>
               \<lparr>Bundle = bundle, IssuedIP = clientIP, Used = False, FailCount = 0\<rparr>)\<rparr>))"

definition registerFailure ::
  "time \<Rightarrow> address \<Rightarrow> string \<Rightarrow> challengeRecord \<Rightarrow> ChallengeManager \<Rightarrow> ChallengeManager" where
  "registerFailure now clientIP challengeID r m =
     (let r' = r\<lparr>FailCount := FailCount r + 1\<rparr>;
          m1 = m\<lparr>records := (records m)(challengeID \<mapsto> r')\<rparr>
      in if FailCount r' \<ge> failThreshold m1 then
           m1\<lparr>blockedClientIP := (blockedClientIP m1)(clientIP \<mapsto> time_Add now (blockDuration m1)),
              records := (records m1)(challengeID := None)\<rparr>
         else m1)"

definition buildPoWMessage ::
  "stdlib \<Rightarrow> string \<Rightarrow> string \<Rightarrow> string \<Rightarrow> hex_string \<Rightarrow> string \<Rightarrow> string \<Rightarrow> string \<Rightarrow> string" where
  "buildPoWMessage L method path timestampRaw bodyHashHex challengeID powSalt powNonce =
     strings_ToUpper L method @ ''\<newline>'' @ path @ ''\<newline>'' @ timestampRaw @ ''\<newline>'' @ bodyHashHex
       @ ''\<newline>'' @ challengeID @ ''\<newline>'' @ powSalt @ ''\<newline>'' @ powNonce"

fun hasLeadingZeroBits_loop :: "byte list \<Rightarrow> int \<Rightarrow> bool" where
  "hasLeadingZeroBits_loop [] bits = (bits \<le> 0)"
| "hasLeadingZeroBits_loop (b # digest) bits =
     (if bits \<le> 0 then True
      else if bits \<ge> 8 then
        (if b \<noteq> 0 then False else hasLeadingZeroBits_loop digest (bits - 8))
      else (b AND push_bit (nat (8 - bits)) 0xFF) = 0)"

definition hasLeadingZeroBits :: "byte list \<Rightarrow> int \<Rightarrow> bool" where
  "hasLeadingZeroBits digest bits =
     (if bits \<le> 0 then True else hasLeadingZeroBits_loop digest bits)"

text \<open>
  The block \<^verbatim>\<open>if record.Bundle.PoWBits > 0 { ... }\<close> of \<^verbatim>\<open>VerifySubmission\<close>. Each of
  its failing branches calls \<^verbatim>\<open>registerFailure\<close> and returns the error; the block is
  therefore a function to the error (or none), and \<^verbatim>\<open>VerifySubmission\<close> below registers
  the failure.
\<close>

definition verifyPoW ::
  "stdlib \<Rightarrow> challengeRecord \<Rightarrow> string \<Rightarrow> string \<Rightarrow> string \<Rightarrow> string \<Rightarrow> string \<Rightarrow> string \<Rightarrow> hex_string
     \<Rightarrow> verify_error option" where
  "verifyPoW L r challengeID timestampRaw powNonceRaw powHashRaw method path bodyHashHex =
     (if PoWBits (Bundle r) > 0 then
        (let powNonce = strings_TrimSpace L powNonceRaw in
         if powNonce = [] then Some ErrPoWMissing
         else if length powNonce > 128 then Some ErrPoWInvalid
         else
           (let powMessage = buildPoWMessage L method path timestampRaw bodyHashHex challengeID
                               (PoWSalt (Bundle r)) powNonce;
                powDigest = sha256_Sum256 L powMessage
            in if \<not> hasLeadingZeroBits powDigest (PoWBits (Bundle r)) then Some ErrPoWInvalid
               else if strings_TrimSpace L powHashRaw \<noteq> [] then
                 (let expectedPowHash = hex_EncodeToString powDigest
                  in if strings_ToLower L expectedPowHash
                          \<noteq> strings_ToLower L (strings_TrimSpace L powHashRaw)
                     then Some ErrPoWInvalid
                     else None)
               else None))
      else None)"

text \<open>
  The distance of the timestamp from the clock, as \<^verbatim>\<open>VerifySubmission\<close> computes it:
  \<^verbatim>\<open>delta := now.Sub(timestamp); if delta < 0 { delta = -delta }\<close>.
\<close>

definition timestampDelta :: "time \<Rightarrow> int \<Rightarrow> duration" where
  "timestampDelta now timestampUnix =
     (let delta = time_Sub now (time_Unix timestampUnix)
      in if delta < 0 then duration_neg delta else delta)"

definition signingText :: "stdlib \<Rightarrow> string \<Rightarrow> string \<Rightarrow> string \<Rightarrow> hex_string \<Rightarrow> string \<Rightarrow> string" where
  "signingText L method path timestampRaw bodyHashHex nonce =
     strings_ToUpper L method @ ''\<newline>'' @ path @ ''\<newline>'' @ timestampRaw @ ''\<newline>'' @ bodyHashHex
       @ ''\<newline>'' @ nonce"

definition expectedSignature ::
  "stdlib \<Rightarrow> challengeRecord \<Rightarrow> string \<Rightarrow> string \<Rightarrow> string \<Rightarrow> hex_string \<Rightarrow> hex_string" where
  "expectedSignature L r method path timestampRaw bodyHashHex =
     hex_EncodeToString
       (hmac_sha256 L (ClientSecret (Bundle r))
          (signingText L method path timestampRaw bodyHashHex (Nonce (Bundle r))))"

text \<open>
  \<^verbatim>\<open>VerifySubmission\<close>: the result is the returned error (\<open>None\<close> for \<^verbatim>\<open>nil\<close>) and the
  manager afterwards. \<^verbatim>\<open>subtle.ConstantTimeCompare(x, y) != 1\<close> is \<open>x \<noteq> y\<close>.
\<close>

definition VerifySubmission ::
  "stdlib \<Rightarrow> time \<Rightarrow> ChallengeManager \<Rightarrow> address \<Rightarrow> string \<Rightarrow> string \<Rightarrow> string \<Rightarrow> string
     \<Rightarrow> string \<Rightarrow> string \<Rightarrow> string \<Rightarrow> bytes \<Rightarrow> verify_error option \<times> ChallengeManager" where
  "VerifySubmission L now m0 clientIP challengeID timestampRaw signatureRaw powNonceRaw powHashRaw
       method path body =
     (let m = cleanup now m0 in
      if (case blockedClientIP m clientIP of
            None \<Rightarrow> False
          | Some blockedUntil \<Rightarrow> time_Before now blockedUntil)
      then (Some ErrClientBlocked, m)
      else case records m challengeID of
        None \<Rightarrow> (Some ErrChallengeMissing, m)
      | Some r \<Rightarrow>
          if Used r then (Some ErrChallengeUsed, m)
          else if time_Before (ExpiresAt (Bundle r)) now then
            (Some ErrChallengeExpired, m\<lparr>records := (records m)(challengeID := None)\<rparr>)
          else if IssuedIP r \<noteq> clientIP then (Some ErrChallengeIPMismatch, m)
          else case ParseInt timestampRaw of
            None \<Rightarrow> (Some ErrTimestampInvalid, m)
          | Some timestampUnix \<Rightarrow>
              if timestampDelta now timestampUnix > timestampSkew m then
                (Some ErrTimestampInvalid, m)
              else
                (let bodyHashHex = hex_EncodeToString (sha256_Sum256 L body) in
                 case verifyPoW L r challengeID timestampRaw powNonceRaw powHashRaw method path
                        bodyHashHex of
                   Some err \<Rightarrow> (Some err, registerFailure now clientIP challengeID r m)
                 | None \<Rightarrow>
                     if strings_ToLower L (expectedSignature L r method path timestampRaw bodyHashHex)
                          \<noteq> strings_ToLower L signatureRaw
                     then (Some ErrSignatureInvalid, registerFailure now clientIP challengeID r m)
                     else
                       (None,
                        m\<lparr>records :=
                            ((records m)(challengeID \<mapsto> r\<lparr>Used := True\<rparr>))(challengeID := None)\<rparr>)))"

subsection \<open>Sequences of calls\<close>

text \<open>
  The manager is shared by all clients; what happens between two calls of interest is a
  list of calls of \<^verbatim>\<open>Issue\<close> and \<^verbatim>\<open>VerifySubmission\<close>, each with its clock reading.
\<close>

record submission =
  sub_clientIP :: address
  sub_challengeID :: string
  sub_timestampRaw :: string
  sub_signatureRaw :: string
  sub_powNonceRaw :: string
  sub_powHashRaw :: string
  sub_method :: string
  sub_path :: string
  sub_body :: bytes

definition submit ::
  "stdlib \<Rightarrow> time \<Rightarrow> ChallengeManager \<Rightarrow> submission \<Rightarrow> verify_error option \<times> ChallengeManager" where
  "submit L now m s =
     VerifySubmission L now m (sub_clientIP s) (sub_challengeID s) (sub_timestampRaw s)
       (sub_signatureRaw s) (sub_powNonceRaw s) (sub_powHashRaw s) (sub_method s) (sub_path s)
       (sub_body s)"

datatype call =
    CallIssue time string string string string address int
  | CallVerify time submission

fun call_time :: "call \<Rightarrow> time" where
  "call_time (CallIssue now rndID rndSecret rndNonce rndSalt clientIP powBits) = now"
| "call_time (CallVerify now s) = now"

fun call_issues :: "string \<Rightarrow> call \<Rightarrow> bool" where
  "call_issues cid (CallIssue now rndID rndSecret rndNonce rndSalt clientIP powBits) = (rndID = cid)"
| "call_issues cid (CallVerify now s) = False"

fun do_call :: "stdlib \<Rightarrow> ChallengeManager \<Rightarrow> call \<Rightarrow> ChallengeManager" where
  "do_call L m (CallIssue now rndID rndSecret rndNonce rndSalt clientIP powBits) =
     snd (Issue now rndID rndSecret rndNonce rndSalt m clientIP powBits)"
| "do_call L m (CallVerify now s) = snd (submit L now m s)"

definition do_calls :: "stdlib \<Rightarrow> ChallengeManager \<Rightarrow> call list \<Rightarrow> ChallengeManager" where
  "do_calls L m cs = foldl (do_call L) m cs"

text \<open>The errors returned by a list of submissions made one after the other.\<close>

fun submit_all ::
  "stdlib \<Rightarrow> ChallengeManager \<Rightarrow> (time \<times> submission) list
     \<Rightarrow> verify_error option list \<times> ChallengeManager" where
  "submit_all L m [] = ([], m)"
| "submit_all L m ((now, s) # rest) =
     (case submit L now m s of
        (e, m') \<Rightarrow> (case submit_all L m' rest of (es, m'') \<Rightarrow> (e # es, m'')))"

section \<open>Leading zero bits, as the specification counts them\<close>

text \<open>
  The bits of a byte sequence, most significant bit of the first byte first, and the number
  of zero bits before the first one bit.
\<close>

definition byte_bits :: "byte \<Rightarrow> bool list" where
  "byte_bits b = map (bit b) [7, 6, 5, 4, 3, 2, 1, 0]"

definition leading_zero_bits :: "byte list \<Rightarrow> nat" where
  "leading_zero_bits digest = length (takeWhile Not (concat (map byte_bits digest)))"

section \<open>Auxiliary notions used in the statements\<close>

text \<open>\<^verbatim>\<open>Allow\<close> called several times on one key, each call with its two clock readings.\<close>

fun Allow_all ::
  "FixedWindowLimiter \<Rightarrow> string \<Rightarrow> int \<Rightarrow> duration \<Rightarrow> (time \<times> time) list
     \<Rightarrow> bool list \<times> FixedWindowLimiter" where
  "Allow_all l key limit window [] = ([], l)"
| "Allow_all l key limit window ((now, now2) # rest) =
     (case Allow now now2 l key limit window of
        (ok, l') \<Rightarrow>
          (case Allow_all l' key limit window rest of (oks, l'') \<Rightarrow> (ok # oks, l'')))"

text \<open>The client has a block entry that has not run out at \<open>now\<close>.\<close>

definition client_blocked :: "time \<Rightarrow> ChallengeManager \<Rightarrow> address \<Rightarrow> bool" where
  "client_blocked now m clientIP =
     (case blockedClientIP m clientIP of
        None \<Rightarrow> False
      | Some blockedUntil \<Rightarrow> now < blockedUntil)"

text \<open>
  The client is not blocked and \<open>r\<close> is the record of the identifier: unused, not expired
  at \<open>now\<close>, and issued to the client.
\<close>

definition live_record ::
  "time \<Rightarrow> ChallengeManager \<Rightarrow> address \<Rightarrow> string \<Rightarrow> challengeRecord \<Rightarrow> bool" where
  "live_record now m clientIP challengeID r =
     (\<not> client_blocked now m clientIP \<and> records m challengeID = Some r \<and> \<not> Used r \<and>
      \<not> ExpiresAt (Bundle r) < now \<and> IssuedIP r = clientIP)"

text \<open>The timestamp gets past the timestamp check of \<^verbatim>\<open>VerifySubmission\<close>.\<close>

definition passes_timestamp :: "time \<Rightarrow> ChallengeManager \<Rightarrow> string \<Rightarrow> bool" where
  "passes_timestamp now m timestampRaw =
     (case ParseInt timestampRaw of
        None \<Rightarrow> False
      | Some timestampUnix \<Rightarrow> \<not> timestampDelta now timestampUnix > timestampSkew m)"

section \<open>A stand-in library and a small scenario\<close>

text \<open>
  Closed examples need the library functions at concrete arguments. The functions below
  stand in for them there: the digest is not SHA-256 and the code is not HMAC (a digest of
  32 bytes whose first byte is the last byte of the message less 48; a code of 32 bytes made
  of the two lengths), and the string functions are the ASCII part of the Go functions. Every
  theorem that is not a closed example holds for all library functions.
\<close>

definition demo_digest :: "bytes \<Rightarrow> byte list" where
  "demo_digest s = (if s = [] then 0 else of_nat (of_char (last s)) - 48) # replicate 31 0"

definition demo_mac :: "bytes \<Rightarrow> bytes \<Rightarrow> byte list" where
  "demo_mac k s = of_nat (length k) # of_nat (length s) # replicate 30 0"

definition ascii_upper :: "char \<Rightarrow> char" where
  "ascii_upper c =
     (if 97 \<le> (of_char c :: nat) \<and> (of_char c :: nat) \<le> 122
      then char_of (of_char c - 32 :: nat) else c)"

definition ascii_lower :: "char \<Rightarrow> char" where
  "ascii_lower c =
     (if 65 \<le> (of_char c :: nat) \<and> (of_char c :: nat) \<le> 90
      then char_of (of_char c + 32 :: nat) else c)"

definition ascii_space :: "char \<Rightarrow> bool" where
  "ascii_space c =
     ((of_char c :: nat) = 32 \<or> (9 \<le> (of_char c :: nat) \<and> (of_char c :: nat) \<le> 13))"

definition demo_lib :: stdlib where
  "demo_lib =
     \<lparr>sha256_Sum256 = demo_digest, hmac_sha256 = demo_mac,
      strings_ToUpper = map ascii_upper, strings_ToLower = map ascii_lower,
      strings_TrimSpace = (\<lambda>s. rev (dropWhile ascii_space (rev (dropWhile ascii_space s))))\<rparr>"

text \<open>
  The manager of \<^verbatim>\<open>main.go\<close> with the default configuration (TTL 120 s, skew 90 s,
  threshold 5, block of 10 minutes), at an instant in September 2026.
\<close>

definition demo_now :: time where
  "demo_now = 1790000000 * Second"

definition demo_new :: ChallengeManager where
  "demo_new = NewChallengeManager (120 * Second) (90 * Second) 5 (10 * Minute)"

text \<open>
  A challenge issued to client 10.0.0.1 at \<open>demo_now\<close> with the given difficulty, its
  record, a submission by that client, and the signature that the stand-in library expects
  for a timestamp of ten digits.
\<close>

definition demo_record :: "int \<Rightarrow> challengeRecord" where
  "demo_record bits =
     \<lparr>Bundle = \<lparr>ChallengeID = ''c1'', ClientSecret = ''s3cr3t'', Nonce = ''n0nce'',
                PoWBits = bits, PoWSalt = ''5a17'', ExpiresAt = demo_now + 120 * Second\<rparr>,
      IssuedIP = ''10.0.0.1'', Used = False, FailCount = 0\<rparr>"

definition demo_issued :: "int \<Rightarrow> ChallengeManager" where
  "demo_issued bits =
     snd (Issue demo_now ''c1'' ''s3cr3t'' ''n0nce'' ''5a17'' demo_new ''10.0.0.1'' bits)"

definition demo_submission :: "string \<Rightarrow> string \<Rightarrow> string \<Rightarrow> string \<Rightarrow> submission" where
  "demo_submission cid ts sg nonce =
     \<lparr>sub_clientIP = ''10.0.0.1'', sub_challengeID = cid, sub_timestampRaw = ts,
      sub_signatureRaw = sg, sub_powNonceRaw = nonce, sub_powHashRaw = '''',
      sub_method = ''POST'', sub_path = ''/v1/feedback/issues'', sub_body = ''{}''\<rparr>"

definition demo_signature :: string where
  "demo_signature = ''066a'' @ replicate 60 (CHR ''0'')"

text \<open>The same manager with a block entry for the client.\<close>

definition demo_blocked :: ChallengeManager where
  "demo_blocked = (demo_issued 0)\<lparr>blockedClientIP := [''10.0.0.1'' \<mapsto> demo_now + 10 * Minute]\<rparr>"

section \<open>Properties of the fixed-window limiter\<close>

lemma wrap64_id: "- (2 ^ 63) \<le> x \<Longrightarrow> x < 2 ^ 63 \<Longrightarrow> wrap64 x = x"
  by (simp add: wrap64_def)

lemma time_Sub_small:
  "- (2 ^ 63) \<le> t - u \<Longrightarrow> t - u < 2 ^ 63 \<Longrightarrow> time_Sub t u = t - u"
  by (simp add: time_Sub_def minDuration_def maxDuration_def)

lemma Allow_deny_limit: "limit \<le> 0 \<Longrightarrow> Allow now now2 l key limit window = (False, l)"
  by (simp add: Allow_def)

lemma Allow_reset:
  assumes "0 < limit"
    and "l key = None \<or> (\<exists>rec. l key = Some rec \<and> window \<le> time_Sub now (WindowStart rec))"
  shows "Allow now now2 l key limit window =
           (True, cleanupExpired now2 window (l(key \<mapsto> \<lparr>WindowStart = now, Count = 1\<rparr>)))"
  using assms by (auto simp: Allow_def split: option.splits)

lemma Allow_reset_record:
  assumes "0 < limit"
    and "l key = None \<or> (\<exists>rec. l key = Some rec \<and> window \<le> time_Sub now (WindowStart rec))"
    and "0 < window" and "window < 2 ^ 62" and "time_Sub now2 now < 2 * window"
  shows "fst (Allow now now2 l key limit window) = True \<and>
         snd (Allow now now2 l key limit window) key = Some \<lparr>WindowStart = now, Count = 1\<rparr>"
proof -
  have w: "wrap64 (window * 2) = 2 * window"
    using assms(3,4) by (simp add: wrap64_id)
  show ?thesis
    using assms(1,2,5) Allow_reset [of limit l key window now now2]
    by (simp add: cleanupExpired_def w)
qed

lemma Allow_deny_full:
  assumes "0 < limit" and "l key = Some rec" and "time_Sub now (WindowStart rec) < window"
    and "limit \<le> Count rec"
  shows "Allow now now2 l key limit window = (False, l)"
  using assms by (simp add: Allow_def)

lemma Allow_increment:
  assumes "0 < limit" and "l key = Some rec" and "time_Sub now (WindowStart rec) < window"
    and "Count rec < limit"
  shows "Allow now now2 l key limit window = (True, l(key \<mapsto> rec\<lparr>Count := Count rec + 1\<rparr>))"
  using assms by (simp add: Allow_def)


lemma Allow_all_within:
  assumes "0 < limit" and "l key = Some \<lparr>WindowStart = start, Count = c\<rparr>"
    and "\<forall>(now, now2) \<in> set ts. time_Sub now start < window"
    and "c + int (length ts) \<le> limit"
  shows "Allow_all l key limit window ts =
           (replicate (length ts) True,
            l(key \<mapsto> \<lparr>WindowStart = start, Count = c + int (length ts)\<rparr>))"
  using assms
proof (induction ts arbitrary: l c)
  case Nil
  then show ?case by (simp add: fun_upd_idem)
next
  case (Cons t ts)
  obtain now now2 where t: "t = (now, now2)" by (cases t)
  have step: "Allow now now2 l key limit window =
                (True, l(key \<mapsto> \<lparr>WindowStart = start, Count = c + 1\<rparr>))"
    using Cons.prems t by (simp add: Allow_def)
  have "Allow_all (l(key \<mapsto> \<lparr>WindowStart = start, Count = c + 1\<rparr>)) key limit window ts =
          (replicate (length ts) True,
           (l(key \<mapsto> \<lparr>WindowStart = start, Count = c + 1\<rparr>))
             (key \<mapsto> \<lparr>WindowStart = start, Count = (c + 1) + int (length ts)\<rparr>))"
    using Cons.prems by (intro Cons.IH) auto
  then show ?case
    using step t by (auto simp: add.assoc fun_upd_def)
qed

lemma Allow_all_append:
  "Allow_all l key limit window (ts @ us) =
     (case Allow_all l key limit window ts of
        (oks, l') \<Rightarrow>
          (case Allow_all l' key limit window us of (oks', l'') \<Rightarrow> (oks @ oks', l'')))"
  by (induction ts arbitrary: l) (auto split: prod.splits)

lemma Allow_scenario:
  assumes fresh: "l key = None \<or> (\<exists>rec. l key = Some rec \<and> window \<le> time_Sub t1 (WindowStart rec))"
    and w: "0 < window" "window < 2 ^ 62"
    and c1: "time_Sub t1' t1 < 2 * window"
    and len: "length ts = 5"
    and within: "\<forall>(now, now2) \<in> set ts. time_Sub now t1 < window"
    and t7: "time_Sub t7 t1 < window"
    and t8: "window \<le> time_Sub t8 t1" and c8: "time_Sub t8' t8 < 2 * window"
  shows "fst (Allow_all l key 6 window ((t1, t1') # ts @ [(t7, t7'), (t8, t8')]))
           = [True, True, True, True, True, True, False, True] \<and>
         snd (Allow_all l key 6 window ((t1, t1') # ts @ [(t7, t7'), (t8, t8')])) key
           = Some \<lparr>WindowStart = t8, Count = 1\<rparr>"
proof -
  define l1 where "l1 = snd (Allow t1 t1' l key 6 window)"
  have a1: "Allow t1 t1' l key 6 window = (True, l1)" and k1: "l1 key = Some \<lparr>WindowStart = t1, Count = 1\<rparr>"
    using Allow_reset_record [of 6 l key window t1 t1'] fresh w c1
    by (simp_all add: l1_def prod_eq_iff)
  define l6 where "l6 = l1(key \<mapsto> \<lparr>WindowStart = t1, Count = 6\<rparr>)"
  have a6: "Allow_all l1 key 6 window ts = (replicate 5 True, l6)"
    using Allow_all_within [of 6 l1 key t1 1 ts window] k1 within len by (simp add: l6_def)
  have k6: "l6 key = Some \<lparr>WindowStart = t1, Count = 6\<rparr>" by (simp add: l6_def)
  have a7: "Allow t7 t7' l6 key 6 window = (False, l6)"
    using Allow_deny_full [of 6 l6 key _ t7 window t7'] k6 t7 by simp
  have a8: "fst (Allow t8 t8' l6 key 6 window) = True"
       "snd (Allow t8 t8' l6 key 6 window) key = Some \<lparr>WindowStart = t8, Count = 1\<rparr>"
    using Allow_reset_record [of 6 l6 key window t8 t8'] k6 t8 w c8 by simp_all
  have r5: "replicate 5 True = [True, True, True, True, True]"
    by (simp add: numeral_eq_Suc)
  show ?thesis
    using a1 a6 a7 a8 by (auto simp add: Allow_all_append r5 split: prod.splits)
qed


text \<open>
  Claim C3, as amended. For a window that is positive and whose double is a duration:
  \<^verbatim>\<open>Allow\<close> returns false and changes nothing when the limit is not positive; on the
  first observation of the key, or when the time elapsed since the stored window start is
  at least the window, it returns true and, when the clock reading of the clean-up is less
  than two windows after \<open>now\<close>, leaves the record of the key at window start \<open>now\<close>
  and count 1; otherwise it returns false when the count has reached the limit, and else
  increments the count and returns true. With limit 6, a fresh key and seven calls within
  one window, calls 1 to 6 return true and call 7 returns false; the first call after the
  window has elapsed returns true and leaves the count at 1.
\<close>

theorem Allow_fixed_window:
  assumes "0 < window" and "window < 2 ^ 62"
  shows
    "(limit \<le> 0 \<longrightarrow> Allow now now2 l key limit window = (False, l)) \<and>
     (0 < limit \<and>
      (l key = None \<or> (\<exists>rec. l key = Some rec \<and> window \<le> time_Sub now (WindowStart rec))) \<and>
      time_Sub now2 now < 2 * window \<longrightarrow>
        fst (Allow now now2 l key limit window) = True \<and>
        snd (Allow now now2 l key limit window) key = Some \<lparr>WindowStart = now, Count = 1\<rparr>) \<and>
     (0 < limit \<and> l key = Some rec \<and> time_Sub now (WindowStart rec) < window \<and>
      limit \<le> Count rec \<longrightarrow>
        Allow now now2 l key limit window = (False, l)) \<and>
     (0 < limit \<and> l key = Some rec \<and> time_Sub now (WindowStart rec) < window \<and>
      Count rec < limit \<longrightarrow>
        Allow now now2 l key limit window = (True, l(key \<mapsto> rec\<lparr>Count := Count rec + 1\<rparr>))) \<and>
     ((l0 key = None \<or> (\<exists>rec. l0 key = Some rec \<and> window \<le> time_Sub t1 (WindowStart rec))) \<and>
      time_Sub t1' t1 < 2 * window \<and>
      length ts = 5 \<and> (\<forall>(t, t') \<in> set ts. time_Sub t t1 < window) \<and>
      time_Sub t7 t1 < window \<and>
      window \<le> time_Sub t8 t1 \<and> time_Sub t8' t8 < 2 * window \<longrightarrow>
        fst (Allow_all l0 key 6 window ((t1, t1') # ts @ [(t7, t7'), (t8, t8')]))
          = [True, True, True, True, True, True, False, True] \<and>
        snd (Allow_all l0 key 6 window ((t1, t1') # ts @ [(t7, t7'), (t8, t8')])) key
          = Some \<lparr>WindowStart = t8, Count = 1\<rparr>)"
proof (intro conjI impI)
  show "Allow now now2 l key limit window = (False, l)" if "limit \<le> 0"
    using that by (rule Allow_deny_limit)
next
  assume a: "0 < limit \<and>
      (l key = None \<or> (\<exists>rec. l key = Some rec \<and> window \<le> time_Sub now (WindowStart rec))) \<and>
      time_Sub now2 now < 2 * window"
  show "fst (Allow now now2 l key limit window) = True"
    and "snd (Allow now now2 l key limit window) key = Some \<lparr>WindowStart = now, Count = 1\<rparr>"
    using Allow_reset_record [of limit l key window now now2] a assms by simp_all
next
  assume "0 < limit \<and> l key = Some rec \<and> time_Sub now (WindowStart rec) < window \<and>
      limit \<le> Count rec"
  then show "Allow now now2 l key limit window = (False, l)"
    using Allow_deny_full [of limit l key rec now window now2] by simp
next
  assume "0 < limit \<and> l key = Some rec \<and> time_Sub now (WindowStart rec) < window \<and>
      Count rec < limit"
  then show "Allow now now2 l key limit window = (True, l(key \<mapsto> rec\<lparr>Count := Count rec + 1\<rparr>))"
    using Allow_increment [of limit l key rec now window now2] by simp
next
  assume a: "(l0 key = None \<or> (\<exists>rec. l0 key = Some rec \<and> window \<le> time_Sub t1 (WindowStart rec))) \<and>
      time_Sub t1' t1 < 2 * window \<and>
      length ts = 5 \<and> (\<forall>(t, t') \<in> set ts. time_Sub t t1 < window) \<and>
      time_Sub t7 t1 < window \<and>
      window \<le> time_Sub t8 t1 \<and> time_Sub t8' t8 < 2 * window"
  show "fst (Allow_all l0 key 6 window ((t1, t1') # ts @ [(t7, t7'), (t8, t8')]))
          = [True, True, True, True, True, True, False, True]"
    and "snd (Allow_all l0 key 6 window ((t1, t1') # ts @ [(t7, t7'), (t8, t8')])) key
          = Some \<lparr>WindowStart = t8, Count = 1\<rparr>"
    using Allow_scenario [of l0 key window t1 t1' ts t7 t8 t8' t7'] a assms by simp_all
qed

text \<open>
  Claim C3, witness: a window of 15 minutes, at limits 0 and 6, on a record of count 3 or 6
  and on a fresh key called eight times.
\<close>

theorem Allow_fixed_window_witness:
  "Allow 7 7 [''k'' \<mapsto> \<lparr>WindowStart = 0, Count = 3\<rparr>] ''k'' 0 (15 * Minute)
     = (False, [''k'' \<mapsto> \<lparr>WindowStart = 0, Count = 3\<rparr>]) \<and>
   fst (Allow (16 * Minute) (16 * Minute) [''k'' \<mapsto> \<lparr>WindowStart = 0, Count = 3\<rparr>] ''k'' 6 (15 * Minute)) = True \<and>
   snd (Allow (16 * Minute) (16 * Minute) [''k'' \<mapsto> \<lparr>WindowStart = 0, Count = 3\<rparr>] ''k'' 6 (15 * Minute)) ''k''
     = Some \<lparr>WindowStart = 16 * Minute, Count = 1\<rparr> \<and>
   Allow 7 7 [''k'' \<mapsto> \<lparr>WindowStart = 0, Count = 6\<rparr>] ''k'' 6 (15 * Minute)
     = (False, [''k'' \<mapsto> \<lparr>WindowStart = 0, Count = 6\<rparr>]) \<and>
   Allow 7 7 [''k'' \<mapsto> \<lparr>WindowStart = 0, Count = 3\<rparr>] ''k'' 6 (15 * Minute)
     = (True, [''k'' \<mapsto> \<lparr>WindowStart = 0, Count = 4\<rparr>]) \<and>
   fst (Allow_all Map.empty ''k'' 6 (15 * Minute)
          [(0, 0), (1, 1), (2, 2), (3, 3), (4, 4), (5, 5), (6, 6), (15 * Minute, 15 * Minute)])
     = [True, True, True, True, True, True, False, True] \<and>
   snd (Allow_all Map.empty ''k'' 6 (15 * Minute)
          [(0, 0), (1, 1), (2, 2), (3, 3), (4, 4), (5, 5), (6, 6), (15 * Minute, 15 * Minute)]) ''k''
     = Some \<lparr>WindowStart = 15 * Minute, Count = 1\<rparr>"
proof -
  have w: "(0::int) < 15 * Minute" "15 * Minute < (2::int) ^ 62"
    by (simp_all add: Minute_def Second_def)
  note th = Allow_fixed_window [OF w]
  show ?thesis
    using th [where limit = 0 and now = 7 and ?now2.0 = 7 and key = "''k''"
               and l = "[''k'' \<mapsto> \<lparr>WindowStart = 0, Count = 3\<rparr>]"]
      th [where limit = 6 and now = "16 * Minute" and ?now2.0 = "16 * Minute" and key = "''k''"
               and l = "[''k'' \<mapsto> \<lparr>WindowStart = 0, Count = 3\<rparr>]"]
      th [where limit = 6 and now = 7 and ?now2.0 = 7 and key = "''k''"
               and l = "[''k'' \<mapsto> \<lparr>WindowStart = 0, Count = 6\<rparr>]"
               and rec = "\<lparr>WindowStart = 0, Count = 6\<rparr>"]
      th [where limit = 6 and now = 7 and ?now2.0 = 7 and key = "''k''"
               and l = "[''k'' \<mapsto> \<lparr>WindowStart = 0, Count = 3\<rparr>]"
               and rec = "\<lparr>WindowStart = 0, Count = 3\<rparr>"]
      th [where ?l0.0 = Map.empty and key = "''k''" and ?t1.0 = 0 and t1' = 0
               and ts = "[(1, 1), (2, 2), (3, 3), (4, 4), (5, 5)]"
               and ?t7.0 = 6 and t7' = 6 and ?t8.0 = "15 * Minute" and t8' = "15 * Minute"]
    by (simp add: time_Sub_small Minute_def Second_def)
qed

text \<open>
  Claim C3, counterexample to the claim as stated: with a window of zero the first
  observation of a key returns true, but the record just written is swept by the clean-up
  of the same call, so the key has no record of count 1 afterwards.
\<close>

theorem Allow_zero_window:
  "fst (Allow 5 5 Map.empty ''k'' 6 0) = True \<and>
   snd (Allow 5 5 Map.empty ''k'' 6 0) ''k'' = None"
  by (simp add: Allow_def cleanupExpired_def time_Sub_def minDuration_def maxDuration_def
        wrap64_def)


section \<open>Properties of the duplicate detector\<close>

lemma SeenRecently_seen:
  assumes "d key = Some e" and "now < e"
  shows "SeenRecently now d key window = (True, d)"
  using assms by (simp add: SeenRecently_def time_Before_def)

lemma SeenRecently_fresh:
  assumes "d key = None \<or> (\<exists>e. d key = Some e \<and> e \<le> now)" and "0 \<le> window"
  shows "fst (SeenRecently now d key window) = False \<and>
         snd (SeenRecently now d key window) key = Some (now + window)"
  using assms
  by (auto simp: SeenRecently_def time_Before_def time_After_def time_Add_def)

text \<open>
  Claim C7, as amended. For a window that is not negative: \<^verbatim>\<open>SeenRecently\<close> returns
  false on the first observation of a key and records the expiry \<open>now + window\<close>; an
  observation strictly before the recorded expiry returns true and changes nothing (the
  expiry is not refreshed); an observation at or after the recorded expiry returns false
  again and records the fresh expiry \<open>now + window\<close>.
\<close>

theorem SeenRecently_window:
  assumes "0 \<le> window"
  shows "(d key = None \<longrightarrow>
            fst (SeenRecently now d key window) = False \<and>
            snd (SeenRecently now d key window) key = Some (now + window)) \<and>
         (d key = Some e \<and> now < e \<longrightarrow> SeenRecently now d key window = (True, d)) \<and>
         (d key = Some e \<and> e \<le> now \<longrightarrow>
            fst (SeenRecently now d key window) = False \<and>
            snd (SeenRecently now d key window) key = Some (now + window))"
  using assms SeenRecently_fresh [of d key now window] SeenRecently_seen [of d key e now window]
  by blast

text \<open>
  Claim C7, witness: a window of 600, a first observation at 1000, a repeat at 1599 and
  one at the expiry 1600.
\<close>

theorem SeenRecently_window_witness:
  "fst (SeenRecently 1000 Map.empty ''k'' 600) = False \<and>
   snd (SeenRecently 1000 Map.empty ''k'' 600) ''k'' = Some 1600 \<and>
   SeenRecently 1599 [''k'' \<mapsto> 1600] ''k'' 600 = (True, [''k'' \<mapsto> 1600]) \<and>
   fst (SeenRecently 1600 [''k'' \<mapsto> 1600] ''k'' 600) = False \<and>
   snd (SeenRecently 1600 [''k'' \<mapsto> 1600] ''k'' 600) ''k'' = Some 2200"
  using SeenRecently_window [of 600 Map.empty "''k''" 1000 0]
    SeenRecently_window [of 600 "[''k'' \<mapsto> 1600]" "''k''" 1599 1600]
    SeenRecently_window [of 600 "[''k'' \<mapsto> 1600]" "''k''" 1600 1600]
  by simp

text \<open>
  Claim C7, counterexample to the claim as stated: with a negative window the first
  observation returns false, but the expiry it writes is already in the past and the sweep
  of the same call deletes it, so no expiry \<open>now + window\<close> is recorded.
\<close>

theorem SeenRecently_negative_window:
  "fst (SeenRecently 1000 Map.empty ''k'' (- 1)) = False \<and>
   snd (SeenRecently 1000 Map.empty ''k'' (- 1)) ''k'' = None"
  by (simp add: SeenRecently_def time_Before_def time_After_def time_Add_def)

text \<open>
  Claim C9, counterexample to the claim as stated: a call that returns true returns before
  the sweep; the entry of key \<open>a\<close>, expired at 100, is still in the map after the call
  at 200.
\<close>

theorem SeenRecently_no_sweep_when_seen:
  "fst (SeenRecently 200 [''a'' \<mapsto> 100, ''k'' \<mapsto> 300] ''k'' 600) = True \<and>
   snd (SeenRecently 200 [''a'' \<mapsto> 100, ''k'' \<mapsto> 300] ''k'' 600) ''a'' = Some 100 \<and>
   time_After 200 100"
  by (simp add: SeenRecently_def time_Before_def time_After_def time_Add_def)

text \<open>
  Claim C9, as amended. After every call of \<^verbatim>\<open>SeenRecently\<close> that returns false, no
  entry whose expiry lies before \<open>now\<close> remains in the detector's map; a call that
  returns true leaves the map as it was.
\<close>

theorem SeenRecently_sweep:
  "(fst (SeenRecently now d key window) = False \<longrightarrow>
      (\<forall>k e. snd (SeenRecently now d key window) k = Some e \<longrightarrow> \<not> time_After now e)) \<and>
   (fst (SeenRecently now d key window) = True \<longrightarrow> snd (SeenRecently now d key window) = d)"
  by (auto simp: SeenRecently_def split: if_splits option.splits)

text \<open>
  Claim C9, witness: a call at 200 on an expired key sweeps the expired entry of another
  key; a call at 200 on a key that expires at 300 changes nothing.
\<close>

theorem SeenRecently_sweep_witness:
  "fst (SeenRecently 200 [''a'' \<mapsto> 100, ''k'' \<mapsto> 150] ''k'' 600) = False \<and>
   snd (SeenRecently 200 [''a'' \<mapsto> 100, ''k'' \<mapsto> 150] ''k'' 600) ''k'' = Some 800 \<and>
   \<not> time_After 200 800 \<and>
   snd (SeenRecently 200 [''a'' \<mapsto> 100, ''k'' \<mapsto> 150] ''k'' 600) ''a'' = None \<and>
   fst (SeenRecently 200 [''a'' \<mapsto> 100, ''k'' \<mapsto> 300] ''k'' 600) = True \<and>
   snd (SeenRecently 200 [''a'' \<mapsto> 100, ''k'' \<mapsto> 300] ''k'' 600)
     = [''a'' \<mapsto> 100, ''k'' \<mapsto> 300]"
  using SeenRecently_sweep [of 200 "[''a'' \<mapsto> 100, ''k'' \<mapsto> 150]" "''k''" 600]
    SeenRecently_sweep [of 200 "[''a'' \<mapsto> 100, ''k'' \<mapsto> 300]" "''k''" 600]
  by (simp add: SeenRecently_def time_Before_def time_After_def time_Add_def)

section \<open>Properties of the remote-backed variants\<close>

text \<open>
  Claim C8. When the call on the remote store made by \<^verbatim>\<open>RedisFixedWindowLimiter.Allow\<close>
  (the script, run on the prefixed key with the limit and the window in milliseconds) or by
  \<^verbatim>\<open>RedisDuplicateDetector.SeenRecently\<close> (the set-if-absent on the prefixed key)
  returns an error, the method returns the boolean that the embedded local limiter or
  detector returns for the same arguments, and the embedded instance is updated by that
  call; the result is a boolean, so the error is not passed on.
\<close>

theorem redis_fallback:
  "(rl_client l = Some run \<and>
    run (rl_keyPrefix l @ '':rate:'' @ key) limit
        (if Milliseconds window \<le> 0 then 1 else Milliseconds window) = Inl err \<longrightarrow>
      Redis_Allow now now2 (Some l) key limit window =
        (fst (Allow now now2 (rl_fallback l) key limit window),
         Some (l\<lparr>rl_fallback := snd (Allow now now2 (rl_fallback l) key limit window)\<rparr>))) \<and>
   (rd_client d = Some setnx \<and>
    setnx (rd_keyPrefix d @ '':dedupe:'' @ key') ''1'' window' = Inl err' \<longrightarrow>
      Redis_SeenRecently now' (Some d) key' window' =
        (fst (SeenRecently now' (rd_fallback d) key' window'),
         Some (d\<lparr>rd_fallback := snd (SeenRecently now' (rd_fallback d) key' window')\<rparr>)))"
proof (intro conjI impI)
  assume a: "rl_client l = Some run \<and>
    run (rl_keyPrefix l @ '':rate:'' @ key) limit
        (if Milliseconds window \<le> 0 then 1 else Milliseconds window) = Inl err"
  show "Redis_Allow now now2 (Some l) key limit window =
        (fst (Allow now now2 (rl_fallback l) key limit window),
         Some (l\<lparr>rl_fallback := snd (Allow now now2 (rl_fallback l) key limit window)\<rparr>))"
  proof (cases "limit \<le> 0")
    case True
    then show ?thesis by (simp add: Redis_Allow_def Allow_def)
  next
    case False
    then show ?thesis
      using a by (simp add: Redis_Allow_def rl_fallback_Allow_def Let_def split: prod.splits)
  qed
next
  assume "rd_client d = Some setnx \<and>
    setnx (rd_keyPrefix d @ '':dedupe:'' @ key') ''1'' window' = Inl err'"
  then show "Redis_SeenRecently now' (Some d) key' window' =
        (fst (SeenRecently now' (rd_fallback d) key' window'),
         Some (d\<lparr>rd_fallback := snd (SeenRecently now' (rd_fallback d) key' window')\<rparr>))"
    by (simp add: Redis_SeenRecently_def rd_fallback_SeenRecently_def Let_def split: prod.splits)
qed

text \<open>
  Claim C8, witness: a store whose every call times out, on a fresh limiter and a fresh
  detector; the first call is allowed, and not seen, by the local instances.
\<close>

theorem redis_fallback_witness:
  "Redis_Allow 5 5 (Some (NewRedisFixedWindowLimiter (Some (\<lambda>k n w. Inl RedisTimeout)) ''els''))
       ''submit:10.0.0.1'' 6 (15 * Minute) =
     (True,
      Some ((NewRedisFixedWindowLimiter (Some (\<lambda>k n w. Inl RedisTimeout)) ''els'')
        \<lparr>rl_fallback :=
           snd (Allow 5 5 NewFixedWindowLimiter ''submit:10.0.0.1'' 6 (15 * Minute))\<rparr>)) \<and>
   Redis_SeenRecently 5 (Some (NewRedisDuplicateDetector (Some (\<lambda>k v w. Inl RedisUnavailable)) ''els''))
       ''10.0.0.1:abc'' (10 * Minute) =
     (False,
      Some ((NewRedisDuplicateDetector (Some (\<lambda>k v w. Inl RedisUnavailable)) ''els'')
        \<lparr>rd_fallback :=
           snd (SeenRecently 5 NewDuplicateDetector ''10.0.0.1:abc'' (10 * Minute))\<rparr>))"
proof -
  have a: "fst (Allow 5 5 NewFixedWindowLimiter ''submit:10.0.0.1'' 6 (15 * Minute)) = True"
    by (simp add: Allow_def NewFixedWindowLimiter_def)
  have b: "fst (SeenRecently 5 NewDuplicateDetector ''10.0.0.1:abc'' (10 * Minute)) = False"
    by (simp add: SeenRecently_def NewDuplicateDetector_def)
  show ?thesis
    using redis_fallback
      [where l = "NewRedisFixedWindowLimiter (Some (\<lambda>k n w. Inl RedisTimeout)) ''els''"
         and run = "\<lambda>k n w. Inl RedisTimeout" and err = RedisTimeout
         and key = "''submit:10.0.0.1''" and limit = 6 and window = "15 * Minute"
         and now = 5 and ?now2.0 = 5
         and d = "NewRedisDuplicateDetector (Some (\<lambda>k v w. Inl RedisUnavailable)) ''els''"
         and setnx = "\<lambda>k v w. Inl RedisUnavailable" and err' = RedisUnavailable
         and key' = "''10.0.0.1:abc''" and window' = "10 * Minute" and now' = 5]
      a b
    by (simp add: NewRedisFixedWindowLimiter_def NewRedisDuplicateDetector_def)
qed

section \<open>The bit test of the code against the count of the specification\<close>

lemma takeWhile_length_ge:
  "k \<le> length (takeWhile P xs) \<longleftrightarrow> k \<le> length xs \<and> (\<forall>i<k. P (xs ! i))"
proof (induction xs arbitrary: k)
  case Nil
  then show ?case by auto
next
  case (Cons x xs)
  show ?case
  proof (cases k)
    case 0
    then show ?thesis by simp
  next
    case (Suc j)
    then show ?thesis
      using Cons.IH [of j] by (auto simp: less_Suc_eq_0_disj)
  qed
qed

lemma length_byte_bits [simp]: "length (byte_bits b) = 8"
  by (simp add: byte_bits_def)

lemma byte_bits_upt: "byte_bits b = map (\<lambda>i. bit b (7 - i)) [0..<8]"
  by (simp add: byte_bits_def upt_rec)

lemma byte_bits_nth: "i < 8 \<Longrightarrow> byte_bits b ! i = bit b (7 - i)"
  by (simp add: byte_bits_upt del: upt_Suc)

lemma byte_zero_iff: "b = 0 \<longleftrightarrow> (\<forall>n<8. \<not> bit b n)" for b :: byte
proof
  assume "b = 0"
  then show "\<forall>n<8. \<not> bit b n" by simp
next
  assume a: "\<forall>n<8. \<not> bit b n"
  show "b = 0"
  proof (rule bit_word_eqI)
    fix n
    assume "n < LENGTH(8)"
    then show "bit b n = bit (0 :: byte) n" using a by simp
  qed
qed

lemma byte_mask_zero_iff:
  fixes b :: byte
  assumes "j \<le> 8"
  shows "b AND push_bit j 0xFF = 0 \<longleftrightarrow> (\<forall>n. j \<le> n \<and> n < 8 \<longrightarrow> \<not> bit b n)"
proof -
  have ff: "(0xFF :: byte) = - 1" by simp
  have m: "bit (push_bit j (0xFF :: byte)) n \<longleftrightarrow> j \<le> n \<and> n < 8" for n
    unfolding ff by (auto simp: bit_simps)
  have "b AND push_bit j 0xFF = 0 \<longleftrightarrow> (\<forall>n<8. \<not> bit (b AND push_bit j 0xFF) n)"
    by (rule byte_zero_iff)
  also have "\<dots> \<longleftrightarrow> (\<forall>n. j \<le> n \<and> n < 8 \<longrightarrow> \<not> bit b n)"
    by (auto simp: bit_and_iff m)
  finally show ?thesis .
qed

lemma byte_leading_ge:
  fixes b :: byte
  assumes "k \<le> 8"
  shows "k \<le> length (takeWhile Not (byte_bits b)) \<longleftrightarrow> (\<forall>n. 8 - k \<le> n \<and> n < 8 \<longrightarrow> \<not> bit b n)"
proof -
  have "k \<le> length (takeWhile Not (byte_bits b)) \<longleftrightarrow> (\<forall>i<k. \<not> bit b (7 - i))"
    using assms by (auto simp: takeWhile_length_ge byte_bits_nth)
  also have "\<dots> \<longleftrightarrow> (\<forall>n. 8 - k \<le> n \<and> n < 8 \<longrightarrow> \<not> bit b n)"
  proof
    assume a: "\<forall>i<k. \<not> bit b (7 - i)"
    show "\<forall>n. 8 - k \<le> n \<and> n < 8 \<longrightarrow> \<not> bit b n"
    proof (intro allI impI)
      fix n
      assume n: "8 - k \<le> n \<and> n < 8"
      then have "7 - n < k" and "7 - (7 - n) = n" by linarith+
      then show "\<not> bit b n" using a by metis
    qed
  next
    assume a: "\<forall>n. 8 - k \<le> n \<and> n < 8 \<longrightarrow> \<not> bit b n"
    show "\<forall>i<k. \<not> bit b (7 - i)"
    proof (intro allI impI)
      fix i
      assume "i < k"
      then have "8 - k \<le> 7 - i \<and> 7 - i < 8" using assms by linarith
      then show "\<not> bit b (7 - i)" using a by blast
    qed
  qed
  finally show ?thesis .
qed

lemma byte_leading_8: "length (takeWhile Not (byte_bits b)) = 8 \<longleftrightarrow> b = 0"
proof -
  have "length (takeWhile Not (byte_bits b)) \<le> 8"
    using length_takeWhile_le [of Not "byte_bits b"] by simp
  then have "length (takeWhile Not (byte_bits b)) = 8 \<longleftrightarrow> 8 \<le> length (takeWhile Not (byte_bits b))"
    by linarith
  also have "\<dots> \<longleftrightarrow> b = 0"
    using byte_leading_ge [of 8 b] by (simp add: byte_zero_iff)
  finally show ?thesis .
qed

lemma leading_zero_bits_Nil [simp]: "leading_zero_bits [] = 0"
  by (simp add: leading_zero_bits_def)

lemma leading_zero_bits_Cons:
  "leading_zero_bits (b # digest) =
     (if b = 0 then 8 + leading_zero_bits digest else length (takeWhile Not (byte_bits b)))"
proof (cases "b = 0")
  case True
  have "length (takeWhile Not (byte_bits b)) = 8"
    using True byte_leading_8 [of b] by blast
  then have all: "takeWhile Not (byte_bits b) = byte_bits b"
    by (metis length_byte_bits takeWhile_eq_take take_all order_refl)
  have "x \<in> set (byte_bits b) \<Longrightarrow> \<not> x" for x
    using all by (metis takeWhile_eq_all_conv)
  then have "takeWhile Not (byte_bits b @ ys) = byte_bits b @ takeWhile Not ys" for ys
    by (rule takeWhile_append2)
  then have "leading_zero_bits (b # digest) = 8 + leading_zero_bits digest"
    unfolding leading_zero_bits_def by (simp only: list.map concat.simps length_append length_byte_bits)
  then show ?thesis
    using True by (simp only: if_True refl)
next
  case False
  then have "length (takeWhile Not (byte_bits b)) \<noteq> 8"
    using byte_leading_8 [of b] by blast
  then have "takeWhile Not (byte_bits b) \<noteq> byte_bits b"
    by (metis length_byte_bits)
  then obtain x where x: "x \<in> set (byte_bits b)" "\<not> Not x"
    by (metis takeWhile_eq_all_conv)
  have "takeWhile Not (byte_bits b @ ys) = takeWhile Not (byte_bits b)" for ys
    using x by (rule takeWhile_append1)
  then have "leading_zero_bits (b # digest) = length (takeWhile Not (byte_bits b))"
    unfolding leading_zero_bits_def by (simp only: list.map concat.simps)
  then show ?thesis
    using False by (simp only: if_False refl)
qed

lemma byte_leading_le8: "length (takeWhile Not (byte_bits b)) \<le> 8"
  using length_takeWhile_le [of Not "byte_bits b"] by simp

lemma hasLeadingZeroBits_loop_iff:
  "hasLeadingZeroBits_loop digest bits \<longleftrightarrow> bits \<le> int (leading_zero_bits digest)"
proof (induction digest arbitrary: bits)
  case Nil
  then show ?case by simp
next
  case (Cons b digest)
  consider "bits \<le> 0" | "8 \<le> bits" | "0 < bits" "bits < 8" by linarith
  then show ?case
  proof cases
    case 1
    then show ?thesis by simp
  next
    case 2
    show ?thesis
    proof (cases "b = 0")
      case True
      then show ?thesis
        using 2 Cons.IH [of "bits - 8"] by (simp add: leading_zero_bits_Cons) linarith
    next
      case False
      then have "length (takeWhile Not (byte_bits b)) < 8"
        using byte_leading_8 [of b] byte_leading_le8 [of b] by linarith
      then show ?thesis
        using 2 False by (simp add: leading_zero_bits_Cons)
    qed
  next
    case 3
    define k where "k = nat bits"
    have k: "0 < k" "k < 8" "bits = int k" "nat (8 - bits) = 8 - k"
      using 3 by (simp_all add: k_def)
    have "b AND push_bit (8 - k) 0xFF = 0 \<longleftrightarrow> k \<le> length (takeWhile Not (byte_bits b))"
      using byte_mask_zero_iff [of "8 - k" b] byte_leading_ge [of k b] k by simp
    also have "\<dots> \<longleftrightarrow> k \<le> leading_zero_bits (b # digest)"
    proof (cases "b = 0")
      case True
      then show ?thesis
        using k byte_leading_8 [of b] by (simp add: leading_zero_bits_Cons)
    next
      case False
      then show ?thesis by (simp add: leading_zero_bits_Cons)
    qed
    finally show ?thesis
      using 3 k by simp
  qed
qed

lemma hasLeadingZeroBits_iff:
  "hasLeadingZeroBits digest bits \<longleftrightarrow> bits \<le> int (leading_zero_bits digest)"
  by (simp add: hasLeadingZeroBits_def hasLeadingZeroBits_loop_iff)

section \<open>Properties of the challenge manager\<close>

subsection \<open>State lemmas\<close>

lemma cleanup_fields [simp]:
  "ttl (cleanup now m) = ttl m"
  "timestampSkew (cleanup now m) = timestampSkew m"
  "failThreshold (cleanup now m) = failThreshold m"
  "blockDuration (cleanup now m) = blockDuration m"
  by (simp_all add: cleanup_def)

lemma cleanup_records:
  "records (cleanup now m) cid =
     (case records m cid of
        None \<Rightarrow> None
      | Some r \<Rightarrow> if ExpiresAt (Bundle r) < now then None else Some r)"
  by (simp add: cleanup_def time_Before_def split: option.splits)

lemma cleanup_blocked:
  "blockedClientIP (cleanup now m) ip =
     (case blockedClientIP m ip of
        None \<Rightarrow> None
      | Some blockedUntil \<Rightarrow> if blockedUntil < now then None else Some blockedUntil)"
  by (simp add: cleanup_def time_After_def split: option.splits)

lemma client_blocked_cleanup:
  "client_blocked now (cleanup now m) ip = client_blocked now m ip"
  by (auto simp: client_blocked_def cleanup_blocked split: option.splits)

lemma VerifySubmission_blocked:
  assumes "client_blocked now m clientIP"
  shows "VerifySubmission L now m clientIP challengeID timestampRaw signatureRaw powNonceRaw
           powHashRaw method path body = (Some ErrClientBlocked, cleanup now m)"
proof -
  have "client_blocked now (cleanup now m) clientIP"
    using assms by (simp add: client_blocked_cleanup)
  then show ?thesis
    by (simp add: VerifySubmission_def client_blocked_def time_Before_def Let_def
          split: option.splits)
qed

lemma VerifySubmission_not_blocked:
  assumes "\<not> client_blocked now m clientIP"
  shows "VerifySubmission L now m clientIP challengeID timestampRaw signatureRaw powNonceRaw
           powHashRaw method path body =
    (let m = cleanup now m in
      case records m challengeID of
        None \<Rightarrow> (Some ErrChallengeMissing, m)
      | Some r \<Rightarrow>
          if Used r then (Some ErrChallengeUsed, m)
          else if time_Before (ExpiresAt (Bundle r)) now then
            (Some ErrChallengeExpired, m\<lparr>records := (records m)(challengeID := None)\<rparr>)
          else if IssuedIP r \<noteq> clientIP then (Some ErrChallengeIPMismatch, m)
          else case ParseInt timestampRaw of
            None \<Rightarrow> (Some ErrTimestampInvalid, m)
          | Some timestampUnix \<Rightarrow>
              if timestampDelta now timestampUnix > timestampSkew m then
                (Some ErrTimestampInvalid, m)
              else
                (let bodyHashHex = hex_EncodeToString (sha256_Sum256 L body) in
                 case verifyPoW L r challengeID timestampRaw powNonceRaw powHashRaw method path
                        bodyHashHex of
                   Some err \<Rightarrow> (Some err, registerFailure now clientIP challengeID r m)
                 | None \<Rightarrow>
                     if strings_ToLower L (expectedSignature L r method path timestampRaw bodyHashHex)
                          \<noteq> strings_ToLower L signatureRaw
                     then (Some ErrSignatureInvalid, registerFailure now clientIP challengeID r m)
                     else
                       (None,
                        m\<lparr>records :=
                            ((records m)(challengeID \<mapsto> r\<lparr>Used := True\<rparr>))(challengeID := None)\<rparr>)))"
proof -
  have "\<not> client_blocked now (cleanup now m) clientIP"
    using assms by (simp add: client_blocked_cleanup)
  then have "\<not> (case blockedClientIP (cleanup now m) clientIP of
            None \<Rightarrow> False
          | Some blockedUntil \<Rightarrow> time_Before now blockedUntil)"
    by (simp add: client_blocked_def time_Before_def split: option.splits)
  then show ?thesis
    unfolding VerifySubmission_def Let_def by (simp only: if_False)
qed

text \<open>For a live record the first five checks pass; what is left is this.\<close>

lemma VerifySubmission_live:
  assumes "live_record now m clientIP challengeID r"
  shows "VerifySubmission L now m clientIP challengeID timestampRaw signatureRaw powNonceRaw
           powHashRaw method path body =
    (if \<not> passes_timestamp now m timestampRaw then (Some ErrTimestampInvalid, cleanup now m)
     else case verifyPoW L r challengeID timestampRaw powNonceRaw powHashRaw method path
                 (hex_EncodeToString (sha256_Sum256 L body)) of
        Some err \<Rightarrow> (Some err, registerFailure now clientIP challengeID r (cleanup now m))
      | None \<Rightarrow>
          if strings_ToLower L (expectedSignature L r method path timestampRaw
                 (hex_EncodeToString (sha256_Sum256 L body)))
               \<noteq> strings_ToLower L signatureRaw
          then (Some ErrSignatureInvalid, registerFailure now clientIP challengeID r (cleanup now m))
          else (None, (cleanup now m)\<lparr>records := (records (cleanup now m))(challengeID := None)\<rparr>))"
proof -
  have nb: "\<not> client_blocked now m clientIP" and
    rec: "records (cleanup now m) challengeID = Some r" and
    u: "\<not> Used r" and e: "\<not> time_Before (ExpiresAt (Bundle r)) now" and ip: "IssuedIP r = clientIP"
    using assms by (simp_all add: live_record_def cleanup_records time_Before_def)
  show ?thesis
    unfolding VerifySubmission_not_blocked [OF nb] Let_def
    using rec u e ip
    by (simp add: passes_timestamp_def split: option.splits)
qed


lemma registerFailure_fields [simp]:
  "ttl (registerFailure now ip cid r m) = ttl m"
  "timestampSkew (registerFailure now ip cid r m) = timestampSkew m"
  "failThreshold (registerFailure now ip cid r m) = failThreshold m"
  "blockDuration (registerFailure now ip cid r m) = blockDuration m"
  by (simp_all add: registerFailure_def Let_def)

lemma registerFailure_below:
  assumes "FailCount r + 1 < failThreshold m"
  shows "registerFailure now ip cid r m =
           m\<lparr>records := (records m)(cid \<mapsto> r\<lparr>FailCount := FailCount r + 1\<rparr>)\<rparr>"
  using assms by (simp add: registerFailure_def Let_def)

lemma registerFailure_reached:
  assumes "failThreshold m \<le> FailCount r + 1"
  shows "registerFailure now ip cid r m =
           m\<lparr>blockedClientIP := (blockedClientIP m)(ip \<mapsto> now + blockDuration m),
             records := (records m)(cid := None)\<rparr>"
  using assms by (simp add: registerFailure_def Let_def time_Add_def)

lemma registerFailure_records_other:
  "cid' \<noteq> cid \<Longrightarrow> records (registerFailure now ip cid r m) cid' = records m cid'"
  by (simp add: registerFailure_def Let_def)

lemma registerFailure_blocked_other:
  "ip' \<noteq> ip \<Longrightarrow> blockedClientIP (registerFailure now ip cid r m) ip' = blockedClientIP m ip'"
  by (simp add: registerFailure_def Let_def)

lemma VerifySubmission_fields [simp]:
  "ttl (snd (VerifySubmission L now m ip cid ts sg pn ph me pa bo)) = ttl m"
  "timestampSkew (snd (VerifySubmission L now m ip cid ts sg pn ph me pa bo)) = timestampSkew m"
  "failThreshold (snd (VerifySubmission L now m ip cid ts sg pn ph me pa bo)) = failThreshold m"
  "blockDuration (snd (VerifySubmission L now m ip cid ts sg pn ph me pa bo)) = blockDuration m"
  by (simp_all add: VerifySubmission_def Let_def split: option.splits)

text \<open>A call changes the record of no identifier but its own, except by expiry.\<close>

lemma VerifySubmission_records_other:
  assumes "cid' \<noteq> cid"
  shows "records (snd (VerifySubmission L now m ip cid ts sg pn ph me pa bo)) cid' =
           records (cleanup now m) cid'"
  using assms
  by (simp add: VerifySubmission_def Let_def registerFailure_records_other split: option.splits)

text \<open>A call never creates a record.\<close>

lemma VerifySubmission_records_None:
  assumes "records m cid' = None"
  shows "records (snd (VerifySubmission L now m ip cid ts sg pn ph me pa bo)) cid' = None"
proof (cases "cid' = cid")
  case False
  then show ?thesis
    using assms by (simp add: VerifySubmission_records_other cleanup_records)
next
  case True
  have "records (cleanup now m) cid = None"
    using assms True by (simp add: cleanup_records)
  then show ?thesis
    using True by (simp add: VerifySubmission_def Let_def split: option.splits)
qed

lemma VerifySubmission_missing:
  assumes "records m cid = None"
  shows "fst (VerifySubmission L now m ip cid ts sg pn ph me pa bo) =
           Some (if client_blocked now m ip then ErrClientBlocked else ErrChallengeMissing)"
proof (cases "client_blocked now m ip")
  case True
  then show ?thesis by (simp add: VerifySubmission_blocked)
next
  case False
  have "records (cleanup now m) cid = None"
    using assms by (simp add: cleanup_records)
  then show ?thesis
    using False by (simp add: VerifySubmission_not_blocked Let_def)
qed

lemma Issue_records:
  "records (snd (Issue now rndID rndSecret rndNonce rndSalt m ip bits)) cid =
     (if cid = rndID
      then Some \<lparr>Bundle = \<lparr>ChallengeID = rndID, ClientSecret = rndSecret, Nonce = rndNonce,
                    PoWBits = bits, PoWSalt = rndSalt, ExpiresAt = now + ttl m\<rparr>,
                  IssuedIP = ip, Used = False, FailCount = 0\<rparr>
      else records (cleanup now m) cid)"
  by (simp add: Issue_def Let_def time_Add_def)

lemma Issue_blocked:
  "blockedClientIP (snd (Issue now rndID rndSecret rndNonce rndSalt m ip bits)) =
     blockedClientIP (cleanup now m)"
  by (simp add: Issue_def Let_def)

lemma do_call_records_None:
  assumes "records m cid = None" and "\<not> call_issues cid c"
  shows "records (do_call L m c) cid = None"
proof (cases c)
  case (CallIssue now rndID rndSecret rndNonce rndSalt ip bits)
  then show ?thesis
    using assms by (simp add: Issue_records cleanup_records)
next
  case (CallVerify now s)
  then show ?thesis
    using assms by (simp add: submit_def VerifySubmission_records_None)
qed

lemma do_calls_records_None:
  assumes "records m cid = None" and "\<forall>c \<in> set cs. \<not> call_issues cid c"
  shows "records (do_calls L m cs) cid = None"
  using assms unfolding do_calls_def
proof (induction cs arbitrary: m)
  case Nil
  then show ?case by simp
next
  case (Cons c cs)
  then show ?case by (simp add: do_call_records_None)
qed

text \<open>A block entry stays as it is while the clock is before its expiry.\<close>

lemma VerifySubmission_keeps_block:
  assumes "blockedClientIP m ip = Some blockedUntil" and "now < blockedUntil"
  shows "blockedClientIP (snd (VerifySubmission L now m ip' cid ts sg pn ph me pa bo)) ip =
           Some blockedUntil"
proof -
  have c: "blockedClientIP (cleanup now m) ip = Some blockedUntil"
    using assms by (simp add: cleanup_blocked)
  show ?thesis
  proof (cases "ip' = ip")
    case True
    have "client_blocked now m ip" using assms by (simp add: client_blocked_def)
    then show ?thesis using True c by (simp add: VerifySubmission_blocked)
  next
    case False
    then have "blockedClientIP (registerFailure now ip' cid r (cleanup now m)) ip = Some blockedUntil"
      for r using c by (simp add: registerFailure_blocked_other)
    then show ?thesis
      using c by (simp add: VerifySubmission_def Let_def split: option.splits)
  qed
qed

lemma do_call_keeps_block:
  assumes "blockedClientIP m ip = Some blockedUntil" and "call_time c < blockedUntil"
  shows "blockedClientIP (do_call L m c) ip = Some blockedUntil"
proof (cases c)
  case (CallIssue now rndID rndSecret rndNonce rndSalt ip' bits)
  then show ?thesis
    using assms by (simp add: Issue_blocked cleanup_blocked)
next
  case (CallVerify now s)
  then show ?thesis
    using assms by (simp add: submit_def VerifySubmission_keeps_block)
qed

lemma do_calls_keeps_block:
  assumes "blockedClientIP m ip = Some blockedUntil"
    and "\<forall>c \<in> set cs. call_time c < blockedUntil"
  shows "blockedClientIP (do_calls L m cs) ip = Some blockedUntil"
  using assms unfolding do_calls_def
proof (induction cs arbitrary: m)
  case Nil
  then show ?case by simp
next
  case (Cons c cs)
  then show ?case by (simp add: do_call_keeps_block)
qed

subsection \<open>The timestamp check\<close>

lemma timestampDelta_abs:
  assumes "- (2 ^ 63) < now - time_Unix u" and "now - time_Unix u < 2 ^ 63"
  shows "timestampDelta now u = \<bar>now - time_Unix u\<bar>"
  using assms
  by (simp add: timestampDelta_def time_Sub_def Let_def minDuration_def maxDuration_def
        duration_neg_def wrap64_def)

lemma timestampDelta_far_past:
  assumes "2 ^ 63 \<le> now - time_Unix u"
  shows "timestampDelta now u = maxDuration"
  using assms
  by (simp add: timestampDelta_def time_Sub_def Let_def minDuration_def maxDuration_def)

lemma timestampDelta_far_future:
  assumes "now - time_Unix u \<le> - (2 ^ 63)"
  shows "timestampDelta now u = minDuration"
  using assms
  by (simp add: timestampDelta_def time_Sub_def Let_def minDuration_def maxDuration_def
        duration_neg_def wrap64_def)

text \<open>What the timestamp check does get right.\<close>

lemma timestamp_rejected:
  assumes "live_record now m clientIP challengeID r"
    and "timestampSkew m < maxDuration"
    and "ParseInt timestampRaw = None \<or>
         (\<exists>u. ParseInt timestampRaw = Some u \<and> timestampSkew m < \<bar>now - time_Unix u\<bar> \<and>
              - (2 ^ 63) < now - time_Unix u)"
  shows "VerifySubmission L now m clientIP challengeID timestampRaw signatureRaw powNonceRaw
           powHashRaw method path body = (Some ErrTimestampInvalid, cleanup now m)"
proof -
  have "\<not> passes_timestamp now m timestampRaw"
  proof (cases "ParseInt timestampRaw")
    case None
    then show ?thesis by (simp add: passes_timestamp_def)
  next
    case (Some u)
    then have u: "timestampSkew m < \<bar>now - time_Unix u\<bar>" "- (2 ^ 63) < now - time_Unix u"
      using assms(3) by auto
    have "timestampSkew m < timestampDelta now u"
    proof (cases "now - time_Unix u < 2 ^ 63")
      case True
      then show ?thesis using u by (simp add: timestampDelta_abs)
    next
      case False
      then show ?thesis using assms(2) by (simp add: timestampDelta_far_past)
    qed
    then show ?thesis using Some by (simp add: passes_timestamp_def)
  qed
  then show ?thesis
    by (simp add: VerifySubmission_live [OF assms(1)])
qed

lemma timestamp_accepted:
  assumes "ParseInt timestampRaw = Some u" and "\<bar>now - time_Unix u\<bar> \<le> timestampSkew m"
    and "timestampSkew m \<le> maxDuration"
  shows "passes_timestamp now m timestampRaw"
proof -
  have "- (2 ^ 63) < now - time_Unix u" "now - time_Unix u < 2 ^ 63"
    using assms(2,3) by (simp_all add: maxDuration_def)
  then have "timestampDelta now u = \<bar>now - time_Unix u\<bar>"
    by (rule timestampDelta_abs)
  then show ?thesis
    using assms by (simp add: passes_timestamp_def)
qed

lemma timestamp_far_future_accepted:
  assumes "ParseInt timestampRaw = Some u" and "now - time_Unix u \<le> - (2 ^ 63)"
    and "minDuration \<le> timestampSkew m"
  shows "passes_timestamp now m timestampRaw"
  using assms by (simp add: passes_timestamp_def timestampDelta_far_future)

lemma VerifySubmission_passes_timestamp:
  assumes "live_record now m clientIP challengeID r" and "passes_timestamp now m timestampRaw"
  shows "fst (VerifySubmission L now m clientIP challengeID timestampRaw signatureRaw powNonceRaw
           powHashRaw method path body) \<noteq> Some ErrTimestampInvalid"
proof -
  have "verifyPoW L r challengeID timestampRaw powNonceRaw powHashRaw method path h
          \<noteq> Some ErrTimestampInvalid" for h
    by (simp add: verifyPoW_def Let_def)
  then show ?thesis
    using assms(2) by (auto simp: VerifySubmission_live [OF assms(1)] split: option.splits)
qed

text \<open>
  What the check gets wrong: a timestamp more than \<open>2 ^ 63\<close> nanoseconds ahead of the
  clock is never refused as invalid.
\<close>

lemma far_future_timestamp_not_rejected:
  assumes "live_record now m clientIP challengeID r"
    and "ParseInt timestampRaw = Some u" and "now - time_Unix u \<le> - (2 ^ 63)"
    and "minDuration \<le> timestampSkew m"
  shows "fst (VerifySubmission L now m clientIP challengeID timestampRaw signatureRaw powNonceRaw
           powHashRaw method path body) \<noteq> Some ErrTimestampInvalid"
  by (rule VerifySubmission_passes_timestamp [OF assms(1)])
    (rule timestamp_far_future_accepted [OF assms(2,3,4)])

subsection \<open>Blocked clients\<close>

text \<open>
  Claim C5. If the client address has a block entry and the current time is strictly
  before its expiry, \<^verbatim>\<open>VerifySubmission\<close> returns \<^verbatim>\<open>ErrClientBlocked\<close> whatever the
  other arguments and whatever the records are (the records are not consulted); afterwards
  every record is either as it was, used flag and failure counter included, or removed
  because it had expired, and the block entry is as it was.
\<close>

theorem blocked_client_rejected_first:
  assumes "blockedClientIP m clientIP = Some blockedUntil" and "now < blockedUntil"
  shows
    "fst (VerifySubmission L now m clientIP challengeID timestampRaw signatureRaw powNonceRaw
            powHashRaw method path body) = Some ErrClientBlocked \<and>
     records (snd (VerifySubmission L now m clientIP challengeID timestampRaw signatureRaw
                     powNonceRaw powHashRaw method path body)) cid =
       (case records m cid of
          None \<Rightarrow> None
        | Some r \<Rightarrow> if ExpiresAt (Bundle r) < now then None else Some r) \<and>
     blockedClientIP (snd (VerifySubmission L now m clientIP challengeID timestampRaw signatureRaw
                             powNonceRaw powHashRaw method path body)) clientIP =
       Some blockedUntil"
proof -
  have "client_blocked now m clientIP"
    using assms by (simp add: client_blocked_def)
  then have "VerifySubmission L now m clientIP challengeID timestampRaw signatureRaw powNonceRaw
            powHashRaw method path body = (Some ErrClientBlocked, cleanup now m)"
    by (rule VerifySubmission_blocked)
  then show ?thesis
    using assms by (simp add: cleanup_records cleanup_blocked)
qed


subsection \<open>Proof of work\<close>

lemma verifyPoW_errors:
  "verifyPoW L r challengeID timestampRaw powNonceRaw powHashRaw method path h = Some e \<Longrightarrow>
     e = ErrPoWMissing \<or> e = ErrPoWInvalid"
  by (auto simp: verifyPoW_def Let_def split: if_splits)

lemma VerifySubmission_pow_result:
  assumes "live_record now m clientIP challengeID r" and "passes_timestamp now m timestampRaw"
  shows "fst (VerifySubmission L now m clientIP challengeID timestampRaw signatureRaw powNonceRaw
                powHashRaw method path body) \<in> {Some ErrPoWMissing, Some ErrPoWInvalid}
         \<longleftrightarrow> verifyPoW L r challengeID timestampRaw powNonceRaw powHashRaw method path
               (hex_EncodeToString (sha256_Sum256 L body)) \<noteq> None"
  using assms(2) verifyPoW_errors [of L r challengeID timestampRaw powNonceRaw powHashRaw "method" "path"
      "hex_EncodeToString (sha256_Sum256 L body)"]
  by (auto simp: VerifySubmission_live [OF assms(1)] split: option.splits)

lemma VerifySubmission_pow_error:
  assumes "live_record now m clientIP challengeID r" and "passes_timestamp now m timestampRaw"
    and "verifyPoW L r challengeID timestampRaw powNonceRaw powHashRaw method path
               (hex_EncodeToString (sha256_Sum256 L body)) = Some e"
  shows "VerifySubmission L now m clientIP challengeID timestampRaw signatureRaw powNonceRaw
                powHashRaw method path body =
           (Some e, registerFailure now clientIP challengeID r (cleanup now m))"
  using assms(2,3) by (simp add: VerifySubmission_live [OF assms(1)])

text \<open>
  Claim C6, as amended. For a live record with positive difficulty and a timestamp that
  passes: \<^verbatim>\<open>VerifySubmission\<close> accepts the proof of work (returns neither
  \<^verbatim>\<open>ErrPoWMissing\<close> nor \<^verbatim>\<open>ErrPoWInvalid\<close>) iff the nonce, trimmed of white space, is
  not empty and at most 128 bytes long, the SHA-256 digest of the message
  \<open>UPPER(method), path, timestamp, hex(SHA256(body)), challengeId, powSalt, nonce\<close>, joined
  by newlines, has at least that many leading zero bits, counted from the most significant
  bit of the first byte, and the supplied hash, when not blank, is the hexadecimal digest up
  to case. A digest with fewer leading zero bits, for a nonce that is not empty, yields
  \<^verbatim>\<open>ErrPoWInvalid\<close>; an empty nonce yields \<^verbatim>\<open>ErrPoWMissing\<close>.
\<close>

theorem pow_acceptance:
  assumes "live_record now m clientIP challengeID r" and "passes_timestamp now m timestampRaw"
    and "0 < PoWBits (Bundle r)"
  shows
    "(let powNonce = strings_TrimSpace L powNonceRaw;
          digest = sha256_Sum256 L
            (strings_ToUpper L method @ ''\<newline>'' @ path @ ''\<newline>'' @ timestampRaw @ ''\<newline>''
               @ hex_EncodeToString (sha256_Sum256 L body) @ ''\<newline>'' @ challengeID @ ''\<newline>''
               @ PoWSalt (Bundle r) @ ''\<newline>'' @ powNonce);
          result = fst (VerifySubmission L now m clientIP challengeID timestampRaw signatureRaw
                          powNonceRaw powHashRaw method path body)
      in (result \<notin> {Some ErrPoWMissing, Some ErrPoWInvalid} \<longleftrightarrow>
            powNonce \<noteq> [] \<and> length powNonce \<le> 128 \<and>
            PoWBits (Bundle r) \<le> int (leading_zero_bits digest) \<and>
            (strings_TrimSpace L powHashRaw = [] \<or>
             strings_ToLower L (hex_EncodeToString digest)
               = strings_ToLower L (strings_TrimSpace L powHashRaw))) \<and>
         (powNonce \<noteq> [] \<and> int (leading_zero_bits digest) < PoWBits (Bundle r) \<longrightarrow>
            result = Some ErrPoWInvalid) \<and>
         (powNonce = [] \<longrightarrow> result = Some ErrPoWMissing))"
proof -
  define powNonce where "powNonce = strings_TrimSpace L powNonceRaw"
  define h where "h = hex_EncodeToString (sha256_Sum256 L body)"
  define digest where "digest = sha256_Sum256 L
            (strings_ToUpper L method @ ''\<newline>'' @ path @ ''\<newline>'' @ timestampRaw @ ''\<newline>''
               @ h @ ''\<newline>'' @ challengeID @ ''\<newline>''
               @ PoWSalt (Bundle r) @ ''\<newline>'' @ powNonce)"
  define ok where "ok \<longleftrightarrow> powNonce \<noteq> [] \<and> length powNonce \<le> 128 \<and>
            PoWBits (Bundle r) \<le> int (leading_zero_bits digest) \<and>
            (strings_TrimSpace L powHashRaw = [] \<or>
             strings_ToLower L (hex_EncodeToString digest)
               = strings_ToLower L (strings_TrimSpace L powHashRaw))"
  have pow: "verifyPoW L r challengeID timestampRaw powNonceRaw powHashRaw method path h =
          (if powNonce = [] then Some ErrPoWMissing
           else if ok then None else Some ErrPoWInvalid)"
    using assms(3)
    by (auto simp: verifyPoW_def Let_def buildPoWMessage_def hasLeadingZeroBits_iff
          powNonce_def digest_def ok_def)
  have res: "fst (VerifySubmission L now m clientIP challengeID timestampRaw signatureRaw
                powNonceRaw powHashRaw method path body) \<in> {Some ErrPoWMissing, Some ErrPoWInvalid}
         \<longleftrightarrow> \<not> ok"
    using VerifySubmission_pow_result [OF assms(1,2), of L signatureRaw powNonceRaw powHashRaw "method"
        "path" body]
    by (auto simp: pow h_def [symmetric] ok_def)
  have inv: "fst (VerifySubmission L now m clientIP challengeID timestampRaw signatureRaw
                powNonceRaw powHashRaw method path body) = Some ErrPoWInvalid"
    if "powNonce \<noteq> []" "int (leading_zero_bits digest) < PoWBits (Bundle r)"
  proof -
    have "\<not> ok" using that by (simp add: ok_def)
    then have "verifyPoW L r challengeID timestampRaw powNonceRaw powHashRaw method path h =
          Some ErrPoWInvalid"
      using that pow by simp
    then show ?thesis
      using VerifySubmission_pow_error [OF assms(1,2), of L powNonceRaw powHashRaw "method" "path" body
          ErrPoWInvalid signatureRaw]
      by (simp add: h_def)
  qed
  have mis: "fst (VerifySubmission L now m clientIP challengeID timestampRaw signatureRaw
                powNonceRaw powHashRaw method path body) = Some ErrPoWMissing"
    if "powNonce = []"
  proof -
    have "verifyPoW L r challengeID timestampRaw powNonceRaw powHashRaw method path h =
          Some ErrPoWMissing"
      using that pow by simp
    then show ?thesis
      using VerifySubmission_pow_error [OF assms(1,2), of L powNonceRaw powHashRaw "method" "path" body
          ErrPoWMissing signatureRaw]
      by (simp add: h_def)
  qed
  show ?thesis
    unfolding Let_def
    using res inv mis
    by (simp only: powNonce_def [symmetric] h_def [symmetric] digest_def [symmetric]
        ok_def [symmetric]) blast
qed

text \<open>
  Claim C10. When the difficulty of the bundle is positive, a nonce that is longer than 128
  bytes after trimming (more than 128 characters take more than 128 bytes) makes
  \<^verbatim>\<open>VerifySubmission\<close> return \<^verbatim>\<open>ErrPoWInvalid\<close>, whatever digest the nonce would
  give, and increments the failure counter of the record: the record is left with the
  counter one higher or, when that reaches the threshold, is deleted and the client is
  blocked.
\<close>

theorem long_nonce_rejected:
  assumes "live_record now m clientIP challengeID r" and "passes_timestamp now m timestampRaw"
    and "0 < PoWBits (Bundle r)" and "128 < length (strings_TrimSpace L powNonceRaw)"
  shows
    "(let result = VerifySubmission L now m clientIP challengeID timestampRaw signatureRaw
                     powNonceRaw powHashRaw method path body
      in fst result = Some ErrPoWInvalid \<and>
         (FailCount r + 1 < failThreshold m \<longrightarrow>
            records (snd result) challengeID = Some (r\<lparr>FailCount := FailCount r + 1\<rparr>)) \<and>
         (failThreshold m \<le> FailCount r + 1 \<longrightarrow>
            records (snd result) challengeID = None \<and>
            blockedClientIP (snd result) clientIP = Some (now + blockDuration m)))"
proof -
  have "strings_TrimSpace L powNonceRaw \<noteq> []"
    using assms(4) by auto
  then have "verifyPoW L r challengeID timestampRaw powNonceRaw powHashRaw method path
               (hex_EncodeToString (sha256_Sum256 L body)) = Some ErrPoWInvalid"
    using assms(3,4) by (simp add: verifyPoW_def Let_def)
  then have "VerifySubmission L now m clientIP challengeID timestampRaw signatureRaw powNonceRaw
                powHashRaw method path body =
           (Some ErrPoWInvalid, registerFailure now clientIP challengeID r (cleanup now m))"
    by (rule VerifySubmission_pow_error [OF assms(1,2)])
  then show ?thesis
    by (simp add: Let_def registerFailure_below registerFailure_reached)
qed

subsection \<open>Single use\<close>

text \<open>
  No record in the map is ever marked used: \<^verbatim>\<open>Issue\<close> stores unused records and a
  successful verification deletes the record it marks.
\<close>

lemma do_call_unused:
  assumes "\<And>cid r. records m cid = Some r \<Longrightarrow> \<not> Used r"
    and "records (do_call L m c) cid = Some r"
  shows "\<not> Used r"
proof (cases c)
  case (CallIssue now rndID rndSecret rndNonce rndSalt ip bits)
  then show ?thesis
    using assms by (auto simp: Issue_records cleanup_records split: if_splits option.splits)
next
  case (CallVerify now s)
  have c: "records (cleanup now m) cid' = Some r' \<Longrightarrow> \<not> Used r'" for cid' r'
    using assms(1) by (auto simp: cleanup_records split: if_splits option.splits)
  have "records (snd (VerifySubmission L now m (sub_clientIP s) (sub_challengeID s)
           (sub_timestampRaw s) (sub_signatureRaw s) (sub_powNonceRaw s) (sub_powHashRaw s)
           (sub_method s) (sub_path s) (sub_body s))) cid = Some r"
    using assms(2) CallVerify by (simp add: submit_def)
  then show ?thesis
    using c
    by (auto simp: VerifySubmission_def Let_def registerFailure_def
          split: if_splits option.splits)
qed

lemma do_calls_unused:
  assumes "\<And>cid r. records m cid = Some r \<Longrightarrow> \<not> Used r"
    and "records (do_calls L m cs) cid = Some r"
  shows "\<not> Used r"
  using assms unfolding do_calls_def
proof (induction cs arbitrary: m cid r)
  case Nil
  then show ?case by simp
next
  case (Cons c cs)
  show ?case
  proof (rule Cons.IH [of "do_call L m c" cid r])
    show "\<not> Used r'" if "records (do_call L m c) cid' = Some r'" for cid' r'
      using do_call_unused [of m L c cid' r'] Cons.prems(1) that by blast
    show "records (foldl (do_call L) (do_call L m c) cs) cid = Some r"
      using Cons.prems(2) by simp
  qed
qed

lemma ChallengeUsed_unreachable:
  "fst (VerifySubmission L now (do_calls L (NewChallengeManager t s n b) cs) clientIP challengeID
          timestampRaw signatureRaw powNonceRaw powHashRaw method path body)
     \<noteq> Some ErrChallengeUsed"
proof -
  let ?m = "do_calls L (NewChallengeManager t s n b) cs"
  have "\<not> Used r" if "records ?m cid = Some r" for cid r
    using do_calls_unused [of "NewChallengeManager t s n b" L cs cid r] that
    by (simp add: NewChallengeManager_def)
  then have u: "\<not> Used r" if "records (cleanup now ?m) cid = Some r" for cid r
    using that by (auto simp: cleanup_records split: if_splits option.splits)
  have pow: "verifyPoW L r challengeID timestampRaw powNonceRaw powHashRaw method path h
          \<noteq> Some ErrChallengeUsed" for r h
    using verifyPoW_errors [of L r challengeID timestampRaw powNonceRaw powHashRaw "method" "path" h
        ErrChallengeUsed] by auto
  show ?thesis
    using u pow
    by (auto simp: VerifySubmission_def Let_def split: if_splits option.splits)
qed

text \<open>
  Claim C1, as amended. For a live, unused, unexpired record of a client that is not
  blocked, the first \<^verbatim>\<open>VerifySubmission\<close> with a fresh timestamp, a proof of work that
  is accepted (or none required) and a correct signature succeeds; after it, and after any
  further calls that do not issue the identifier again, every \<^verbatim>\<open>VerifySubmission\<close>
  with the same identifier fails, whatever its signature: with
  \<^verbatim>\<open>ErrChallengeMissing\<close>, as the record has been deleted, or with
  \<^verbatim>\<open>ErrClientBlocked\<close> when the caller is blocked.
\<close>

theorem single_use:
  assumes "live_record now m clientIP challengeID r"
    and "ParseInt timestampRaw = Some u" and "\<bar>now - time_Unix u\<bar> \<le> timestampSkew m"
    and "timestampSkew m \<le> maxDuration"
    and "verifyPoW L r challengeID timestampRaw powNonceRaw powHashRaw method path
           (hex_EncodeToString (sha256_Sum256 L body)) = None"
    and "strings_ToLower L signatureRaw =
           strings_ToLower L (expectedSignature L r method path timestampRaw
             (hex_EncodeToString (sha256_Sum256 L body)))"
    and "\<forall>c \<in> set cs. \<not> call_issues challengeID c"
  shows
    "(let first = VerifySubmission L now m clientIP challengeID timestampRaw signatureRaw
                    powNonceRaw powHashRaw method path body;
          m' = do_calls L (snd first) cs
      in fst first = None \<and>
         fst (VerifySubmission L now' m' clientIP' challengeID timestampRaw' signatureRaw'
                powNonceRaw' powHashRaw' method' path' body') =
           Some (if client_blocked now' m' clientIP' then ErrClientBlocked
                 else ErrChallengeMissing))"
proof -
  define first where "first = VerifySubmission L now m clientIP challengeID timestampRaw signatureRaw
                    powNonceRaw powHashRaw method path body"
  have ts: "passes_timestamp now m timestampRaw"
    using assms(2,3,4) by (rule timestamp_accepted)
  have first: "first = (None, (cleanup now m)\<lparr>records := (records (cleanup now m))(challengeID := None)\<rparr>)"
    using ts assms(5,6) by (simp add: first_def VerifySubmission_live [OF assms(1)])
  then have "records (snd first) challengeID = None"
    by simp
  then have "records (do_calls L (snd first) cs) challengeID = None"
    using assms(7) by (rule do_calls_records_None)
  then have "fst (VerifySubmission L now' (do_calls L (snd first) cs) clientIP' challengeID
                timestampRaw' signatureRaw' powNonceRaw' powHashRaw' method' path' body') =
           Some (if client_blocked now' (do_calls L (snd first) cs) clientIP' then ErrClientBlocked
                 else ErrChallengeMissing)"
    by (rule VerifySubmission_missing)
  then show ?thesis
    using first unfolding Let_def first_def [symmetric] by simp
qed

subsection \<open>Progressive block\<close>

lemma signature_failure_state:
  assumes "submit L now m s = (Some ErrSignatureInvalid, m')"
    and "records m (sub_challengeID s) = Some r"
  shows "m' = registerFailure now (sub_clientIP s) (sub_challengeID s) r (cleanup now m)"
proof -
  let ?V = "VerifySubmission L now m (sub_clientIP s) (sub_challengeID s) (sub_timestampRaw s)
       (sub_signatureRaw s) (sub_powNonceRaw s) (sub_powHashRaw s) (sub_method s) (sub_path s)
       (sub_body s)"
  have V: "?V = (Some ErrSignatureInvalid, m')"
    using assms(1) by (simp add: submit_def)
  have nb: "\<not> client_blocked now m (sub_clientIP s)"
    using V VerifySubmission_blocked [of now m "sub_clientIP s" L] by auto
  have c: "records (cleanup now m) (sub_challengeID s) = Some r
           \<or> records (cleanup now m) (sub_challengeID s) = None"
    using assms(2) by (simp add: cleanup_records)
  have pow: "verifyPoW L r (sub_challengeID s) (sub_timestampRaw s) (sub_powNonceRaw s)
               (sub_powHashRaw s) (sub_method s) (sub_path s) h \<noteq> Some ErrSignatureInvalid" for h
    using verifyPoW_errors [of L r "sub_challengeID s" "sub_timestampRaw s" "sub_powNonceRaw s"
        "sub_powHashRaw s" "sub_method s" "sub_path s" h ErrSignatureInvalid] by auto
  from c show ?thesis
  proof
    assume "records (cleanup now m) (sub_challengeID s) = None"
    then show ?thesis
      using V nb by (simp add: VerifySubmission_not_blocked Let_def)
  next
    assume "records (cleanup now m) (sub_challengeID s) = Some r"
    then show ?thesis
      using V nb pow
      by (auto simp: VerifySubmission_not_blocked Let_def split: if_splits option.splits)
  qed
qed

lemma consecutive_failures:
  assumes "records m cid = Some r"
    and "FailCount r + int (length subs) = failThreshold m"
    and "subs \<noteq> []"
    and "\<forall>(t, s) \<in> set subs. sub_clientIP s = ip \<and> sub_challengeID s = cid"
    and "fst (submit_all L m subs) = replicate (length subs) (Some ErrSignatureInvalid)"
  shows "blockedClientIP (snd (submit_all L m subs)) ip = Some (fst (last subs) + blockDuration m)"
  using assms
proof (induction subs arbitrary: m r)
  case Nil
  then show ?case by simp
next
  case (Cons x subs)
  obtain now s where x: "x = (now, s)" by (cases x)
  obtain e m1 where step: "submit L now m s = (e, m1)" by (cases "submit L now m s")
  obtain es m2 where rest: "submit_all L m1 subs = (es, m2)" by (cases "submit_all L m1 subs")
  have ids: "sub_clientIP s = ip" "sub_challengeID s = cid"
    using Cons.prems(4) x by auto
  have e: "e = Some ErrSignatureInvalid" and es: "es = replicate (length subs) (Some ErrSignatureInvalid)"
    using Cons.prems(5) x step rest by simp_all
  have m1: "m1 = registerFailure now ip cid r (cleanup now m)"
    using signature_failure_state [of L now m s m1 r] step e Cons.prems(1) ids by simp
  have cfg: "failThreshold m1 = failThreshold m" "blockDuration m1 = blockDuration m"
    by (simp_all add: m1)
  show ?case
  proof (cases "subs = []")
    case True
    then have "failThreshold (cleanup now m) \<le> FailCount r + 1"
      using Cons.prems(2) by simp
    then have "blockedClientIP m1 ip = Some (now + blockDuration m)"
      by (simp add: m1 registerFailure_reached)
    then show ?thesis
      using True x step by simp
  next
    case False
    then have "FailCount r + 1 < failThreshold (cleanup now m)"
      using Cons.prems(2) by (cases subs) auto
    then have r1: "records m1 cid = Some (r\<lparr>FailCount := FailCount r + 1\<rparr>)"
      by (simp add: m1 registerFailure_below)
    have "blockedClientIP (snd (submit_all L m1 subs)) ip
            = Some (fst (last subs) + blockDuration m1)"
    proof (rule Cons.IH [OF r1 _ False])
      show "FailCount (r\<lparr>FailCount := FailCount r + 1\<rparr>) + int (length subs) = failThreshold m1"
        using Cons.prems(2) cfg by simp
      show "\<forall>(t, s) \<in> set subs. sub_clientIP s = ip \<and> sub_challengeID s = cid"
        using Cons.prems(4) by simp
      show "fst (submit_all L m1 subs) = replicate (length subs) (Some ErrSignatureInvalid)"
        using rest es by simp
    qed
    then show ?thesis
      using False x step rest cfg by simp
  qed
qed

text \<open>
  Claim C2, as amended. With failure threshold 5, five consecutive invalid-signature
  submissions from one client address against one and the same challenge record, fresh at
  the start, cause every further \<^verbatim>\<open>VerifySubmission\<close> from that address to return
  \<^verbatim>\<open>ErrClientBlocked\<close>, whatever it carries and whatever calls were made in between,
  as long as the clock is before the time of the fifth failure plus the block duration.
\<close>

theorem progressive_block:
  assumes "failThreshold m = 5" and "records m challengeID = Some r" and "FailCount r = 0"
    and "length subs = 5"
    and "\<forall>(t, s) \<in> set subs. sub_clientIP s = clientIP \<and> sub_challengeID s = challengeID"
    and "fst (submit_all L m subs) = replicate 5 (Some ErrSignatureInvalid)"
    and "\<forall>c \<in> set cs. call_time c < fst (last subs) + blockDuration m"
    and "now < fst (last subs) + blockDuration m"
  shows "fst (VerifySubmission L now (do_calls L (snd (submit_all L m subs)) cs) clientIP
                challengeID' timestampRaw signatureRaw powNonceRaw powHashRaw method path body)
           = Some ErrClientBlocked"
proof -
  have ne: "subs \<noteq> []" using assms(4) by auto
  have "blockedClientIP (snd (submit_all L m subs)) clientIP
          = Some (fst (last subs) + blockDuration m)"
    using consecutive_failures [of m challengeID r subs clientIP L] assms(1-6) ne by simp
  then have "blockedClientIP (do_calls L (snd (submit_all L m subs)) cs) clientIP
          = Some (fst (last subs) + blockDuration m)"
    using assms(7) by (rule do_calls_keeps_block)
  then have "client_blocked now (do_calls L (snd (submit_all L m subs)) cs) clientIP"
    using assms(8) by (simp add: client_blocked_def)
  then show ?thesis
    by (simp add: VerifySubmission_blocked)
qed

section \<open>Closed examples\<close>

lemma demo_signature_expected:
  "expectedSignature demo_lib (demo_record 0) ''POST'' ''/v1/feedback/issues'' ''1790000001''
     (hex_EncodeToString (sha256_Sum256 demo_lib ''{}'')) = demo_signature"
  by code_simp

text \<open>
  Claim C1, witness: the challenge of the scenario, verified one second after issue with
  the expected signature; another client is issued a challenge; the replay two seconds
  later finds no record.
\<close>

theorem single_use_witness:
  "live_record (demo_now + Second) (demo_issued 0) ''10.0.0.1'' ''c1'' (demo_record 0) \<and>
   ParseInt ''1790000001'' = Some 1790000001 \<and>
   \<bar>(demo_now + Second) - time_Unix 1790000001\<bar> \<le> timestampSkew (demo_issued 0) \<and>
   fst (VerifySubmission demo_lib (demo_now + Second) (demo_issued 0) ''10.0.0.1'' ''c1''
          ''1790000001'' demo_signature '''' '''' ''POST'' ''/v1/feedback/issues'' ''{}'') = None \<and>
   fst (VerifySubmission demo_lib (demo_now + 3 * Second)
          (do_calls demo_lib
             (snd (VerifySubmission demo_lib (demo_now + Second) (demo_issued 0) ''10.0.0.1'' ''c1''
                ''1790000001'' demo_signature '''' '''' ''POST'' ''/v1/feedback/issues'' ''{}''))
             [CallIssue (demo_now + 2 * Second) ''c2'' ''k'' ''n'' ''s'' ''10.0.0.2'' 0])
          ''10.0.0.1'' ''c1'' ''1790000003'' demo_signature '''' '''' ''POST''
          ''/v1/feedback/issues'' ''{}'') = Some ErrChallengeMissing"
proof -
  have h1: "live_record (demo_now + Second) (demo_issued 0) ''10.0.0.1'' ''c1'' (demo_record 0)"
    by code_simp
  have h2: "ParseInt ''1790000001'' = Some 1790000001"
    by code_simp
  have h3: "\<bar>(demo_now + Second) - time_Unix 1790000001\<bar> \<le> timestampSkew (demo_issued 0)"
    by code_simp
  have h4: "timestampSkew (demo_issued 0) \<le> maxDuration"
    by code_simp
  have h5: "verifyPoW demo_lib (demo_record 0) ''c1'' ''1790000001'' '''' '''' ''POST''
              ''/v1/feedback/issues'' (hex_EncodeToString (sha256_Sum256 demo_lib ''{}'')) = None"
    by code_simp
  have h6: "strings_ToLower demo_lib demo_signature =
           strings_ToLower demo_lib (expectedSignature demo_lib (demo_record 0) ''POST''
             ''/v1/feedback/issues'' ''1790000001''
             (hex_EncodeToString (sha256_Sum256 demo_lib ''{}'')))"
    by code_simp
  have h7: "\<forall>c \<in> set [CallIssue (demo_now + 2 * Second) ''c2'' ''k'' ''n'' ''s'' ''10.0.0.2'' 0].
              \<not> call_issues ''c1'' c"
    by simp
  have nb: "\<not> client_blocked (demo_now + 3 * Second)
          (do_calls demo_lib
             (snd (VerifySubmission demo_lib (demo_now + Second) (demo_issued 0) ''10.0.0.1'' ''c1''
                ''1790000001'' demo_signature '''' '''' ''POST'' ''/v1/feedback/issues'' ''{}''))
             [CallIssue (demo_now + 2 * Second) ''c2'' ''k'' ''n'' ''s'' ''10.0.0.2'' 0])
          ''10.0.0.1''"
    by code_simp
  show ?thesis
    using single_use [OF h1 h2 h3 h4 h5 h6 h7, of "demo_now + 3 * Second" "''10.0.0.1''"
        "''1790000003''" demo_signature "''''" "''''" "''POST''" "''/v1/feedback/issues''" "''{}''"]
      h1 h2 h3 nb
    by (simp add: Let_def)
qed

text \<open>
  Claim C1, counterexample to the claim as stated: the second of two identical submissions
  with a correct signature returns \<^verbatim>\<open>ErrChallengeMissing\<close>, not
  \<^verbatim>\<open>ErrChallengeUsed\<close>.
\<close>

theorem replay_reports_missing:
  "fst (submit_all demo_lib (demo_issued 0)
          [(demo_now + Second, demo_submission ''c1'' ''1790000001'' demo_signature ''''),
           (demo_now + Second, demo_submission ''c1'' ''1790000001'' demo_signature '''')])
     = [None, Some ErrChallengeMissing]"
  by code_simp

text \<open>
  Claim C2, witness: five submissions with a bad signature against the challenge of the
  scenario, one a second; the client is then issued a brand-new challenge \<open>c2\<close> (same
  secret and nonce, so that the signature shown is the expected one) and submits it with a
  correct signature, and is refused as blocked.
\<close>

theorem progressive_block_witness:
  "fst (submit_all demo_lib (demo_issued 0)
          [(demo_now + 1 * Second, demo_submission ''c1'' ''1790000001'' ''bad'' ''''),
           (demo_now + 2 * Second, demo_submission ''c1'' ''1790000002'' ''bad'' ''''),
           (demo_now + 3 * Second, demo_submission ''c1'' ''1790000003'' ''bad'' ''''),
           (demo_now + 4 * Second, demo_submission ''c1'' ''1790000004'' ''bad'' ''''),
           (demo_now + 5 * Second, demo_submission ''c1'' ''1790000005'' ''bad'' '''')])
     = replicate 5 (Some ErrSignatureInvalid) \<and>
   fst (VerifySubmission demo_lib (demo_now + 7 * Second)
          (do_calls demo_lib
             (snd (submit_all demo_lib (demo_issued 0)
                [(demo_now + 1 * Second, demo_submission ''c1'' ''1790000001'' ''bad'' ''''),
                 (demo_now + 2 * Second, demo_submission ''c1'' ''1790000002'' ''bad'' ''''),
                 (demo_now + 3 * Second, demo_submission ''c1'' ''1790000003'' ''bad'' ''''),
                 (demo_now + 4 * Second, demo_submission ''c1'' ''1790000004'' ''bad'' ''''),
                 (demo_now + 5 * Second, demo_submission ''c1'' ''1790000005'' ''bad'' '''')]))
             [CallIssue (demo_now + 6 * Second) ''c2'' ''s3cr3t'' ''n0nce'' ''5a17'' ''10.0.0.1'' 0])
          ''10.0.0.1'' ''c2'' ''1790000007'' demo_signature '''' '''' ''POST''
          ''/v1/feedback/issues'' ''{}'') = Some ErrClientBlocked \<and>
   expectedSignature demo_lib
       (demo_record 0\<lparr>Bundle := Bundle (demo_record 0)\<lparr>ChallengeID := ''c2''\<rparr>\<rparr>) ''POST''
       ''/v1/feedback/issues'' ''1790000007'' (hex_EncodeToString (sha256_Sum256 demo_lib ''{}''))
     = demo_signature"
proof -
  let ?subs = "[(demo_now + 1 * Second, demo_submission ''c1'' ''1790000001'' ''bad'' ''''),
           (demo_now + 2 * Second, demo_submission ''c1'' ''1790000002'' ''bad'' ''''),
           (demo_now + 3 * Second, demo_submission ''c1'' ''1790000003'' ''bad'' ''''),
           (demo_now + 4 * Second, demo_submission ''c1'' ''1790000004'' ''bad'' ''''),
           (demo_now + 5 * Second, demo_submission ''c1'' ''1790000005'' ''bad'' '''')]"
  let ?cs = "[CallIssue (demo_now + 6 * Second) ''c2'' ''s3cr3t'' ''n0nce'' ''5a17'' ''10.0.0.1'' 0]"
  have h1: "failThreshold (demo_issued 0) = 5" by code_simp
  have h2: "records (demo_issued 0) ''c1'' = Some (demo_record 0)" by code_simp
  have h3: "FailCount (demo_record 0) = 0" by code_simp
  have h4: "length ?subs = 5" by simp
  have h5: "\<forall>(t, s) \<in> set ?subs. sub_clientIP s = ''10.0.0.1'' \<and> sub_challengeID s = ''c1''"
    by (simp add: demo_submission_def)
  have h6: "fst (submit_all demo_lib (demo_issued 0) ?subs) = replicate 5 (Some ErrSignatureInvalid)"
    by code_simp
  have h7: "\<forall>c \<in> set ?cs. call_time c < fst (last ?subs) + blockDuration (demo_issued 0)"
    by code_simp
  have h8: "demo_now + 7 * Second < fst (last ?subs) + blockDuration (demo_issued 0)"
    by code_simp
  have sg: "expectedSignature demo_lib
       (demo_record 0\<lparr>Bundle := Bundle (demo_record 0)\<lparr>ChallengeID := ''c2''\<rparr>\<rparr>) ''POST''
       ''/v1/feedback/issues'' ''1790000007'' (hex_EncodeToString (sha256_Sum256 demo_lib ''{}''))
     = demo_signature"
    by code_simp
  show ?thesis
    using progressive_block [OF h1 h2 h3 h4 h5 h6 h7 h8, of "''c2''" "''1790000007''" demo_signature
        "''''" "''''" "''POST''" "''/v1/feedback/issues''" "''{}''"] h6 sg
    by simp
qed

text \<open>
  Claim C2, counterexample to the claim as stated: five consecutive invalid-signature
  submissions of one client, four against one record and one against another, block
  nobody; the sixth submission, with a correct signature, succeeds.
\<close>

theorem failures_spread_over_records:
  "fst (submit_all demo_lib
          (snd (Issue demo_now ''c2'' ''s3cr3t'' ''n0nce'' ''5a17'' (demo_issued 0) ''10.0.0.1'' 0))
          [(demo_now + 1 * Second, demo_submission ''c1'' ''1790000001'' ''bad'' ''''),
           (demo_now + 2 * Second, demo_submission ''c1'' ''1790000002'' ''bad'' ''''),
           (demo_now + 3 * Second, demo_submission ''c1'' ''1790000003'' ''bad'' ''''),
           (demo_now + 4 * Second, demo_submission ''c1'' ''1790000004'' ''bad'' ''''),
           (demo_now + 5 * Second, demo_submission ''c2'' ''1790000005'' ''bad'' ''''),
           (demo_now + 6 * Second, demo_submission ''c2'' ''1790000001'' demo_signature '''')])
     = [Some ErrSignatureInvalid, Some ErrSignatureInvalid, Some ErrSignatureInvalid,
        Some ErrSignatureInvalid, Some ErrSignatureInvalid, None]"
  by code_simp

text \<open>
  Claim C4, the code at a failing input. The clock reads \<open>demo_now\<close> plus one second
  (September 2026) and the skew is 90 s; the timestamp \<open>12000000000\<close> parses, lies more
  than 323 years ahead, and the submission is accepted all the same: the difference
  saturates at the smallest duration, whose negation is itself, and a negative number does
  not exceed the skew.
\<close>

theorem far_future_timestamp_accepted:
  "ParseInt ''12000000000'' = Some 12000000000 \<and>
   90 * Second < \<bar>(demo_now + Second) - time_Unix 12000000000\<bar> \<and>
   fst (VerifySubmission demo_lib (demo_now + Second) (demo_issued 0) ''10.0.0.1'' ''c1''
          ''12000000000'' (''066b'' @ replicate 60 (CHR ''0'')) '''' '''' ''POST''
          ''/v1/feedback/issues'' ''{}'') = None"
  by code_simp

text \<open>
  Claim C5, witness: the blocked client of the scenario submits its live challenge with the
  expected signature.
\<close>

theorem blocked_client_rejected_first_witness:
  "blockedClientIP demo_blocked ''10.0.0.1'' = Some (demo_now + 10 * Minute) \<and>
   demo_now + Second < demo_now + 10 * Minute \<and>
   fst (VerifySubmission demo_lib (demo_now + Second) demo_blocked ''10.0.0.1'' ''c1''
          ''1790000001'' demo_signature '''' '''' ''POST'' ''/v1/feedback/issues'' ''{}'')
     = Some ErrClientBlocked \<and>
   records (snd (VerifySubmission demo_lib (demo_now + Second) demo_blocked ''10.0.0.1'' ''c1''
          ''1790000001'' demo_signature '''' '''' ''POST'' ''/v1/feedback/issues'' ''{}'')) ''c1''
     = Some (demo_record 0) \<and>
   blockedClientIP (snd (VerifySubmission demo_lib (demo_now + Second) demo_blocked ''10.0.0.1''
          ''c1'' ''1790000001'' demo_signature '''' '''' ''POST'' ''/v1/feedback/issues'' ''{}''))
       ''10.0.0.1''
     = Some (demo_now + 10 * Minute)"
proof -
  have h1: "blockedClientIP demo_blocked ''10.0.0.1'' = Some (demo_now + 10 * Minute)"
    by (simp add: demo_blocked_def)
  have h2: "demo_now + Second < demo_now + 10 * Minute"
    by (simp add: Minute_def Second_def)
  have r: "records demo_blocked ''c1'' = Some (demo_record 0)"
    by code_simp
  have e: "\<not> ExpiresAt (Bundle (demo_record 0)) < demo_now + Second"
    by code_simp
  show ?thesis
    using blocked_client_rejected_first [OF h1 h2, of demo_lib "''c1''" "''1790000001''"
        demo_signature "''''" "''''" "''POST''" "''/v1/feedback/issues''" "''{}''" "''c1''"]
      h1 h2 r e
    by simp
qed

text \<open>
  Claim C6, witness: difficulty 8; the nonce \<open>0\<close> (given with blanks around it) yields a
  digest of zero bytes and is accepted, the nonce \<open>z\<close> yields one leading zero bit and
  is refused.
\<close>

theorem pow_acceptance_witness:
  "live_record (demo_now + Second) (demo_issued 8) ''10.0.0.1'' ''c1'' (demo_record 8) \<and>
   passes_timestamp (demo_now + Second) (demo_issued 8) ''1790000001'' \<and>
   0 < PoWBits (Bundle (demo_record 8)) \<and>
   leading_zero_bits (sha256_Sum256 demo_lib
      (strings_ToUpper demo_lib ''post'' @ ''\<newline>'' @ ''/v1/feedback/issues'' @ ''\<newline>''
         @ ''1790000001'' @ ''\<newline>'' @ hex_EncodeToString (sha256_Sum256 demo_lib ''{}'') @ ''\<newline>''
         @ ''c1'' @ ''\<newline>'' @ PoWSalt (Bundle (demo_record 8)) @ ''\<newline>''
         @ strings_TrimSpace demo_lib '' 0 '')) = 256 \<and>
   fst (VerifySubmission demo_lib (demo_now + Second) (demo_issued 8) ''10.0.0.1'' ''c1''
          ''1790000001'' demo_signature '' 0 '' '''' ''post'' ''/v1/feedback/issues'' ''{}'')
     \<notin> {Some ErrPoWMissing, Some ErrPoWInvalid} \<and>
   leading_zero_bits (sha256_Sum256 demo_lib
      (strings_ToUpper demo_lib ''post'' @ ''\<newline>'' @ ''/v1/feedback/issues'' @ ''\<newline>''
         @ ''1790000001'' @ ''\<newline>'' @ hex_EncodeToString (sha256_Sum256 demo_lib ''{}'') @ ''\<newline>''
         @ ''c1'' @ ''\<newline>'' @ PoWSalt (Bundle (demo_record 8)) @ ''\<newline>''
         @ strings_TrimSpace demo_lib ''z'')) = 1 \<and>
   fst (VerifySubmission demo_lib (demo_now + Second) (demo_issued 8) ''10.0.0.1'' ''c1''
          ''1790000001'' demo_signature ''z'' '''' ''post'' ''/v1/feedback/issues'' ''{}'')
     = Some ErrPoWInvalid"
proof -
  have h1: "live_record (demo_now + Second) (demo_issued 8) ''10.0.0.1'' ''c1'' (demo_record 8)"
    by code_simp
  have h2: "passes_timestamp (demo_now + Second) (demo_issued 8) ''1790000001''"
    by code_simp
  have h3: "0 < PoWBits (Bundle (demo_record 8))"
    by code_simp
  have salt: "PoWSalt (Bundle (demo_record 8)) = ''5a17''" and bits: "PoWBits (Bundle (demo_record 8)) = 8"
    by code_simp+
  have n0: "strings_TrimSpace demo_lib '' 0 '' = ''0''" and nz: "strings_TrimSpace demo_lib ''z'' = ''z''"
    and nh: "strings_TrimSpace demo_lib '''' = ''''"
    by code_simp+
  have z0: "leading_zero_bits (sha256_Sum256 demo_lib
      (strings_ToUpper demo_lib ''post'' @ ''\<newline>'' @ ''/v1/feedback/issues'' @ ''\<newline>''
         @ ''1790000001'' @ ''\<newline>'' @ hex_EncodeToString (sha256_Sum256 demo_lib ''{}'') @ ''\<newline>''
         @ ''c1'' @ ''\<newline>'' @ ''5a17'' @ ''\<newline>'' @ ''0'')) = 256"
    by code_simp
  have zz: "leading_zero_bits (sha256_Sum256 demo_lib
      (strings_ToUpper demo_lib ''post'' @ ''\<newline>'' @ ''/v1/feedback/issues'' @ ''\<newline>''
         @ ''1790000001'' @ ''\<newline>'' @ hex_EncodeToString (sha256_Sum256 demo_lib ''{}'') @ ''\<newline>''
         @ ''c1'' @ ''\<newline>'' @ ''5a17'' @ ''\<newline>'' @ ''z'')) = 1"
    by code_simp
  show ?thesis
    using pow_acceptance [OF h1 h2 h3, of demo_lib "'' 0 ''" "''post''" "''/v1/feedback/issues''"
        "''{}''" demo_signature "''''"]
      pow_acceptance [OF h1 h2 h3, of demo_lib "''z''" "''post''" "''/v1/feedback/issues''"
        "''{}''" demo_signature "''''"]
      h1 h2 h3 z0 zz
    by (simp add: Let_def salt bits n0 nz nh)
qed

text \<open>
  Claim C6, counterexample to the claim as stated: a nonce of 129 bytes whose digest has
  all the leading zero bits asked for is refused with \<^verbatim>\<open>ErrPoWInvalid\<close>.
\<close>

theorem long_nonce_with_good_digest:
  "8 \<le> leading_zero_bits
          (sha256_Sum256 demo_lib
             (buildPoWMessage demo_lib ''POST'' ''/v1/feedback/issues'' ''1790000001''
                (hex_EncodeToString (sha256_Sum256 demo_lib ''{}'')) ''c1'' ''5a17''
                (replicate 128 (CHR ''7'') @ ''0''))) \<and>
   fst (VerifySubmission demo_lib (demo_now + Second) (demo_issued 8) ''10.0.0.1'' ''c1''
          ''1790000001'' demo_signature (replicate 128 (CHR ''7'') @ ''0'') '''' ''POST''
          ''/v1/feedback/issues'' ''{}'') = Some ErrPoWInvalid"
  by code_simp

text \<open>
  Claim C10, witness: difficulty 8 and a nonce of 129 bytes; the submission is refused and
  the failure counter of the record goes from 0 to 1.
\<close>

theorem long_nonce_rejected_witness:
  "live_record (demo_now + Second) (demo_issued 8) ''10.0.0.1'' ''c1'' (demo_record 8) \<and>
   passes_timestamp (demo_now + Second) (demo_issued 8) ''1790000001'' \<and>
   0 < PoWBits (Bundle (demo_record 8)) \<and>
   length (strings_TrimSpace demo_lib (replicate 128 (CHR ''7'') @ ''0'')) = 129 \<and>
   fst (VerifySubmission demo_lib (demo_now + Second) (demo_issued 8) ''10.0.0.1'' ''c1''
          ''1790000001'' demo_signature (replicate 128 (CHR ''7'') @ ''0'') '''' ''POST''
          ''/v1/feedback/issues'' ''{}'') = Some ErrPoWInvalid \<and>
   records (snd (VerifySubmission demo_lib (demo_now + Second) (demo_issued 8) ''10.0.0.1'' ''c1''
          ''1790000001'' demo_signature (replicate 128 (CHR ''7'') @ ''0'') '''' ''POST''
          ''/v1/feedback/issues'' ''{}'')) ''c1'' = Some ((demo_record 8)\<lparr>FailCount := 1\<rparr>)"
proof -
  have h1: "live_record (demo_now + Second) (demo_issued 8) ''10.0.0.1'' ''c1'' (demo_record 8)"
    by code_simp
  have h2: "passes_timestamp (demo_now + Second) (demo_issued 8) ''1790000001''"
    by code_simp
  have h3: "0 < PoWBits (Bundle (demo_record 8))"
    by code_simp
  have len: "length (strings_TrimSpace demo_lib (replicate 128 (CHR ''7'') @ ''0'')) = 129"
    by code_simp
  have h4: "128 < length (strings_TrimSpace demo_lib (replicate 128 (CHR ''7'') @ ''0''))"
    by (simp add: len)
  have fc: "FailCount (demo_record 8) = 0" and th: "failThreshold (demo_issued 8) = 5"
    by code_simp+
  show ?thesis
    using long_nonce_rejected [OF h1 h2 h3 h4, of demo_signature "''''" "''POST''"
        "''/v1/feedback/issues''" "''{}''"] h1 h2 h3 len
    by (simp add: Let_def fc th)
qed

end
